theory Spec2Isabelle
  imports Main "HOL-Library.Char_ord" "HOL-Library.List_Lexorder"
begin

section \<open>Data model\<close>

text \<open>
  One entry of \<^verbatim>\<open>models.json\<close>, the dict the scripts index with
  \<^verbatim>\<open>model["id"]\<close>, \<^verbatim>\<open>model["name"]\<close>, \<^verbatim>\<open>model["url"]\<close>,
  \<^verbatim>\<open>model["output"]\<close>, \<^verbatim>\<open>model["db_model_name"]\<close> and
  \<^verbatim>\<open>model["description"]\<close>. The record type fixes that all six keys are present.
\<close>

record model =
  m_id :: string
  m_name :: string
  m_url :: string
  m_output :: string
  m_db_model_name :: string
  m_description :: string

text \<open>\<^verbatim>\<open>config["models"]\<close>: the descriptors in manifest order.\<close>

type_synonym config = "model list"

text \<open>
  What \<^verbatim>\<open>open(config_path)\<close> followed by \<^verbatim>\<open>json.load\<close> finds on disk: no
  file, a file that is not JSON, or a document with its list of descriptors.
\<close>

datatype manifest_source = No_file | Not_json | Document config

datatype exn =
    SystemExit nat
  | FileNotFoundError
  | JSONDecodeError
  | DatabaseError
  | URLError
  | ContentTooShortError
  | BadZipFile
  | OSError
  | TypeError

text \<open>
  Every call that leaves the process: the database session and its statements, and the
  transport and file operations of the download script.
\<close>

datatype effect =
    CONNECT
  | SELECT_MODEL_NAME
  | DROP_ONNX_MODEL string
  | LOAD_ONNX_MODEL string string
  | CLOSE
  | URLRETRIEVE string string
  | EXTRACT string
  | UNLINK string

text \<open>
  The lines the scripts print. The messages are Korean text in the source; each
  constructor stands for one \<^verbatim>\<open>print\<close> call and carries the values that are
  formatted into it.
\<close>

datatype out =
    Err_no_password
  | Err_connect
  | Err_not_found string
  | Err_all_with_ids
  | Usage
  | Row_status string bool string
  | Row_loaded string string string
  | Row_orphan string
  | Msg_none_loaded
  | Msg_total nat
  | Msg_start nat
  | Header string string
  | Header_unknown string
  | Msg_drop string
  | Skip_already_loaded
  | Skip_no_file string
  | Hint_download string
  | Msg_load string
  | Msg_done_load nat nat
  | Valid_id string
  | Warn_not_loaded string string
  | Msg_nothing_to_drop
  | Plan_size nat
  | Plan_known string string
  | Plan_orphan string
  | Msg_cancelled
  | Msg_done_drop nat
  | Skip_exists string
  | Msg_downloading string
  | Msg_extracting
  | Msg_ok string

text \<open>
  The surroundings of one run, none of which the register and deregister scripts change:
  the manifest file, the credential, whether the database accepts the session and the
  query, the files in \<^verbatim>\<open>models/onnx\<close>, the names for which the backend
  rejects a call, and what the operator types at the confirmation prompt.
  \<open>drop_missing_raises\<close> says what \<^verbatim>\<open>DROP_ONNX_MODEL(name, force => TRUE)\<close>
  does for a name that is not registered.
\<close>

datatype reply = Reply_y | Reply_other | Reply_eof

record env =
  manifest :: manifest_source
  password_set :: bool
  connect_ok :: bool
  select_ok :: bool
  onnx_files :: "string set"
  load_faults :: "string set"
  drop_faults :: "string set"
  drop_missing_raises :: bool
  answer :: reply

text \<open>
  What a run changes: the rows of \<^verbatim>\<open>USER_MINING_MODELS\<close> (the registry), the
  calls issued so far and the lines printed so far.
\<close>

record state =
  mining_models :: "string list"
  effects :: "effect list"
  stdout :: "out list"

text \<open>A call either returns a value or raises, and in both cases leaves a state.\<close>

datatype 'a res = Ok 'a state | Raise exn state

definition state_of :: "'a res \<Rightarrow> state" where
  "state_of r = (case r of Ok _ s \<Rightarrow> s | Raise _ s \<Rightarrow> s)"

definition emit :: "effect \<Rightarrow> state \<Rightarrow> state" where
  "emit x s = s\<lparr>effects := effects s @ [x]\<rparr>"

definition print :: "out list \<Rightarrow> state \<Rightarrow> state" where
  "print ls s = s\<lparr>stdout := stdout s @ ls\<rparr>"

definition start :: "string list \<Rightarrow> state" where
  "start rows = \<lparr>mining_models = rows, effects = [], stdout = []\<rparr>"

section \<open>The registry backend\<close>

text \<open>
  Modelled from the spec: the two registry calls of the database, which is not part of
  the repository. Registering fails if the artifact does not exist, if the name is
  already registered, or on a backend failure; otherwise the name is added.
\<close>

definition db_load :: "env \<Rightarrow> string \<Rightarrow> string \<Rightarrow> string list \<Rightarrow> exn + string list" where
  "db_load e file_name model_name rows =
     (if model_name \<in> load_faults e then Inl DatabaseError
      else if file_name \<notin> onnx_files e then Inl DatabaseError
      else if model_name \<in> set rows then Inl DatabaseError
      else Inr (rows @ [model_name]))"

text \<open>
  Modelled from the spec: deregistering removes the name or fails on a backend failure.
  The spec leaves open what the forced drop of an unregistered name does, so the
  environment decides it.
\<close>

definition db_drop :: "env \<Rightarrow> string \<Rightarrow> string list \<Rightarrow> exn + string list" where
  "db_drop e model_name rows =
     (if model_name \<in> drop_faults e then Inl DatabaseError
      else if model_name \<notin> set rows \<and> drop_missing_raises e then Inl DatabaseError
      else Inr (removeAll model_name rows))"

section \<open>Functions shared by the register and deregister scripts\<close>

definition load_config :: "env \<Rightarrow> exn + config" where
  "load_config e =
     (case manifest e of
        No_file \<Rightarrow> Inl FileNotFoundError
      | Not_json \<Rightarrow> Inl JSONDecodeError
      | Document c \<Rightarrow> Inr c)"

text \<open>
  \<^verbatim>\<open>get_db_connection\<close>: without the credential it prints and exits with status 1
  before any connection attempt. A failing \<^verbatim>\<open>oracledb.connect\<close> raises; both
  \<^verbatim>\<open>main\<close> functions catch that, print and exit with status 1, which is folded in
  here.
\<close>

definition get_db_connection :: "env \<Rightarrow> state \<Rightarrow> unit res" where
  "get_db_connection e s =
     (if \<not> password_set e then Raise (SystemExit 1) (print [Err_no_password] s)
      else if \<not> connect_ok e then Raise (SystemExit 1) (print [Err_connect] (emit CONNECT s))
      else Ok () (emit CONNECT s))"

text \<open>
  \<^verbatim>\<open>get_loaded_models\<close> builds a Python set from the rows. The model keeps the
  distinct names as a list (the order Python iterates a set in is not specified; no
  theorem below depends on it).
\<close>

definition get_loaded_models :: "env \<Rightarrow> state \<Rightarrow> string list res" where
  "get_loaded_models e s =
     (if select_ok e then Ok (remdups (mining_models s)) (emit SELECT_MODEL_NAME s)
      else Raise DatabaseError (emit SELECT_MODEL_NAME s))"

definition drop_model :: "env \<Rightarrow> string \<Rightarrow> state \<Rightarrow> unit res" where
  "drop_model e model_name s =
     (let s1 = emit (DROP_ONNX_MODEL model_name) s in
      case db_drop e model_name (mining_models s1) of
        Inl x \<Rightarrow> Raise x s1
      | Inr rows \<Rightarrow> Ok () (print [Msg_drop model_name] (s1\<lparr>mining_models := rows\<rparr>)))"

text \<open>The \<^verbatim>\<open>finally: conn.close()\<close> of both \<^verbatim>\<open>main\<close> functions.\<close>

definition finally_close :: "'a res \<Rightarrow> exn option \<times> state" where
  "finally_close r =
     (case r of
        Ok _ s \<Rightarrow> (None, emit CLOSE s)
      | Raise x s \<Rightarrow> (Some x, emit CLOSE s))"

section \<open>The register script, \<^verbatim>\<open>load_models.py\<close>\<close>

record load_args =
  model_id :: "string option"
  list_flag :: bool
  force_flag :: bool

definition load_model :: "env \<Rightarrow> model \<Rightarrow> state \<Rightarrow> bool res" where
  "load_model e m s =
     (if m_output m \<notin> onnx_files e
      then Ok False (print [Skip_no_file (m_output m), Hint_download (m_id m)] s)
      else
        let s1 = emit (LOAD_ONNX_MODEL (m_output m) (m_db_model_name m)) s in
        case db_load e (m_output m) (m_db_model_name m) (mining_models s1) of
          Inl x \<Rightarrow> Raise x s1
        | Inr rows \<Rightarrow> Ok True (print [Msg_load (m_db_model_name m)] (s1\<lparr>mining_models := rows\<rparr>)))"

definition list_models :: "config \<Rightarrow> string list \<Rightarrow> state \<Rightarrow> state" where
  "list_models c loaded_models s =
     print (map (\<lambda>m. Row_status (m_id m) (m_db_model_name m \<in> set loaded_models) (m_description m)) c) s"

text \<open>
  The body of the \<^verbatim>\<open>for model in models_to_load\<close> loop. It returns the two
  counters; \<open>loaded_models\<close> is the snapshot taken before the loop, which the loop
  never updates.
\<close>

definition load_step ::
  "env \<Rightarrow> bool \<Rightarrow> string list \<Rightarrow> model \<Rightarrow> nat \<times> nat \<Rightarrow> state \<Rightarrow> (nat \<times> nat) res" where
  "load_step e force loaded_models m cnt s =
     (let db_name = m_db_model_name m;
          s1 = print [Header (m_id m) (m_name m)] s
      in
      if db_name \<in> set loaded_models \<and> \<not> force
      then Ok (fst cnt, snd cnt + 1) (print [Skip_already_loaded] s1)
      else
        case (if db_name \<in> set loaded_models then drop_model e db_name s1 else Ok () s1) of
          Raise x s2 \<Rightarrow> Raise x s2
        | Ok _ s2 \<Rightarrow>
            (case load_model e m s2 of
               Raise x s3 \<Rightarrow> Raise x s3
             | Ok True s3 \<Rightarrow> Ok (fst cnt + 1, snd cnt) s3
             | Ok False s3 \<Rightarrow> Ok (fst cnt, snd cnt + 1) s3))"

fun load_loop ::
  "env \<Rightarrow> bool \<Rightarrow> string list \<Rightarrow> model list \<Rightarrow> nat \<times> nat \<Rightarrow> state \<Rightarrow> (nat \<times> nat) res" where
  "load_loop e force loaded_models [] cnt s = Ok cnt s"
| "load_loop e force loaded_models (m # ms) cnt s =
     (case load_step e force loaded_models m cnt s of
        Raise x s1 \<Rightarrow> Raise x s1
      | Ok cnt1 s1 \<Rightarrow> load_loop e force loaded_models ms cnt1 s1)"

text \<open>
  Python's truth test \<^verbatim>\<open>if args.model_id:\<close> is false for a missing argument and
  for the empty string.
\<close>

definition truthy :: "string option \<Rightarrow> bool" where
  "truthy a = (case a of None \<Rightarrow> False | Some i \<Rightarrow> i \<noteq> [])"

text \<open>
  The descriptors the run works on: those whose id equals the argument, or the whole
  manifest when the argument is not truthy.
\<close>

definition models_to_load :: "load_args \<Rightarrow> config \<Rightarrow> model list" where
  "models_to_load args c =
     (if truthy (model_id args)
      then filter (\<lambda>m. Some (m_id m) = model_id args) c
      else c)"

text \<open>The part of \<^verbatim>\<open>main\<close> inside \<^verbatim>\<open>try\<close>.\<close>

definition load_body :: "env \<Rightarrow> load_args \<Rightarrow> config \<Rightarrow> state \<Rightarrow> unit res" where
  "load_body e args c s =
     (case get_loaded_models e s of
        Raise x s1 \<Rightarrow> Raise x s1
      | Ok loaded_models s1 \<Rightarrow>
          if list_flag args then Ok () (list_models c loaded_models s1)
          else if truthy (model_id args) \<and> models_to_load args c = []
          then Raise (SystemExit 1)
                 (list_models c loaded_models (print [Err_not_found (the (model_id args))] s1))
          else
            (case load_loop e (force_flag args) loaded_models (models_to_load args c) (0, 0)
                    (print [Msg_start (length (models_to_load args c))] s1) of
               Raise x s2 \<Rightarrow> Raise x s2
             | Ok cnt s2 \<Rightarrow> Ok () (print [Msg_done_load (fst cnt) (snd cnt)] s2)))"

text \<open>
  \<^verbatim>\<open>main\<close> of \<^verbatim>\<open>load_models.py\<close>, given the parsed arguments and the rows the
  registry holds when the run starts. The result is the exception that ends the process,
  if any, and the final state.
\<close>

definition main_load :: "env \<Rightarrow> load_args \<Rightarrow> string list \<Rightarrow> exn option \<times> state" where
  "main_load e args rows =
     (case load_config e of
        Inl x \<Rightarrow> (Some x, start rows)
      | Inr c \<Rightarrow>
          (case get_db_connection e (start rows) of
             Raise x s \<Rightarrow> (Some x, s)
           | Ok _ s \<Rightarrow> finally_close (load_body e args c s)))"

section \<open>The deregister script, \<^verbatim>\<open>drop_models.py\<close>\<close>

record drop_args =
  model_ids :: "string list"
  all_flag :: bool
  list_only :: bool
  yes_flag :: bool

text \<open>\<^verbatim>\<open>models_to_drop\<close>: pairs of a registry name and a manifest id or \<^verbatim>\<open>None\<close>.\<close>

type_synonym plan = "(string \<times> string option) list"

definition get_model_by_db_name :: "config \<Rightarrow> string \<Rightarrow> model option" where
  "get_model_by_db_name c db_model_name = find (\<lambda>m. m_db_model_name m = db_model_name) c"

definition get_model_by_id :: "config \<Rightarrow> string \<Rightarrow> model option" where
  "get_model_by_id c i = find (\<lambda>m. m_id m = i) c"

definition list_loaded :: "config \<Rightarrow> string list \<Rightarrow> state \<Rightarrow> state" where
  "list_loaded c loaded_models s =
     (if loaded_models = [] then print [Msg_none_loaded] s
      else
        let known = map (\<lambda>m. Row_loaded (m_id m) (m_db_model_name m) (m_description m))
                      (filter (\<lambda>m. m_db_model_name m \<in> set loaded_models) c);
            orphan_models = filter (\<lambda>n. n \<notin> set (map m_db_model_name c)) loaded_models
        in print (known @ map Row_orphan (sort orphan_models) @ [Msg_total (length loaded_models)]) s)"

text \<open>
  \<^verbatim>\<open>confirm_deletion\<close>: prints the plan, then reads the reply; end of input and an
  interrupt print a line and count as no.
\<close>

definition confirm_deletion :: "env \<Rightarrow> plan \<Rightarrow> state \<Rightarrow> bool \<times> state" where
  "confirm_deletion e models_to_drop s =
     (let s1 = print (Plan_size (length models_to_drop) #
                      map (\<lambda>(db_name, i). if truthy i then Plan_known db_name (the i)
                                          else Plan_orphan db_name) models_to_drop) s
      in case answer e of
           Reply_y \<Rightarrow> (True, s1)
         | Reply_other \<Rightarrow> (False, s1)
         | Reply_eof \<Rightarrow> (False, print [Msg_cancelled] s1))"

text \<open>The \<^verbatim>\<open>--all\<close> branch: one plan entry for each name of the snapshot.\<close>

definition plan_all :: "config \<Rightarrow> string list \<Rightarrow> plan" where
  "plan_all c loaded_models =
     map (\<lambda>db_name.
            (db_name, case get_model_by_db_name c db_name of
                        None \<Rightarrow> None
                      | Some m \<Rightarrow> Some (m_id m)))
         loaded_models"

text \<open>
  The branch for explicit ids, \<^verbatim>\<open>for model_id in args.model_ids\<close>: an unknown id
  prints the valid ids and exits with status 1; an id whose model is not loaded prints a
  warning and is left out; any other id is appended to the plan.
\<close>

fun plan_ids :: "config \<Rightarrow> string list \<Rightarrow> string list \<Rightarrow> plan \<Rightarrow> state \<Rightarrow> plan res" where
  "plan_ids c loaded_models [] models_to_drop s = Ok models_to_drop s"
| "plan_ids c loaded_models (i # ids) models_to_drop s =
     (case get_model_by_id c i of
        None \<Rightarrow> Raise (SystemExit 1) (print (Err_not_found i # map (\<lambda>m. Valid_id (m_id m)) c) s)
      | Some m \<Rightarrow>
          if m_db_model_name m \<notin> set loaded_models
          then plan_ids c loaded_models ids models_to_drop
                 (print [Warn_not_loaded i (m_db_model_name m)] s)
          else plan_ids c loaded_models ids (models_to_drop @ [(m_db_model_name m, Some i)]) s)"

text \<open>The loop that executes the plan; it returns \<^verbatim>\<open>dropped_count\<close>.\<close>

fun drop_loop :: "env \<Rightarrow> config \<Rightarrow> plan \<Rightarrow> nat \<Rightarrow> state \<Rightarrow> nat res" where
  "drop_loop e c [] dropped_count s = Ok dropped_count s"
| "drop_loop e c ((db_name, i) # rest) dropped_count s =
     (case (if truthy i
            then (case get_model_by_id c (the i) of
                    None \<Rightarrow> Raise TypeError s
                  | Some m \<Rightarrow> Ok () (print [Header (the i) (m_name m)] s))
            else Ok () (print [Header_unknown db_name] s)) of
        Raise x s1 \<Rightarrow> Raise x s1
      | Ok _ s1 \<Rightarrow>
          (case drop_model e db_name s1 of
             Raise x s2 \<Rightarrow> Raise x s2
           | Ok _ s2 \<Rightarrow> drop_loop e c rest (dropped_count + 1) s2))"

definition drop_body :: "env \<Rightarrow> drop_args \<Rightarrow> config \<Rightarrow> state \<Rightarrow> unit res" where
  "drop_body e args c s =
     (case get_loaded_models e s of
        Raise x s1 \<Rightarrow> Raise x s1
      | Ok loaded_models s1 \<Rightarrow>
          if list_only args then Ok () (list_loaded c loaded_models s1)
          else
            (case (if all_flag args then Ok (plan_all c loaded_models) s1
                   else plan_ids c loaded_models (model_ids args) [] s1) of
               Raise x s2 \<Rightarrow> Raise x s2
             | Ok models_to_drop s2 \<Rightarrow>
                if models_to_drop = [] then Ok () (print [Msg_nothing_to_drop] s2)
                else
                  let r = (if yes_flag args then (True, s2)
                           else confirm_deletion e models_to_drop s2)
                  in
                  if \<not> fst r then Ok () (print [Msg_cancelled] (snd r))
                  else
                    (case drop_loop e c models_to_drop 0 (snd r) of
                       Raise x s4 \<Rightarrow> Raise x s4
                     | Ok dropped_count s4 \<Rightarrow>
                         Ok () (print [Msg_done_drop dropped_count] s4))))"

definition main_drop :: "env \<Rightarrow> drop_args \<Rightarrow> string list \<Rightarrow> exn option \<times> state" where
  "main_drop e args rows =
     (if \<not> list_only args \<and> \<not> all_flag args \<and> model_ids args = []
      then (Some (SystemExit 1), print [Usage] (start rows))
      else if all_flag args \<and> model_ids args \<noteq> []
      then (Some (SystemExit 1), print [Err_all_with_ids] (start rows))
      else
        case load_config e of
          Inl x \<Rightarrow> (Some x, start rows)
        | Inr c \<Rightarrow>
            (case get_db_connection e (start rows) of
               Raise x s \<Rightarrow> (Some x, s)
             | Ok _ s \<Rightarrow> finally_close (drop_body e args c s)))"

section \<open>The download script, \<^verbatim>\<open>download_models.py\<close>\<close>

text \<open>
  What a file holds: a complete payload, the beginning of one, or an archive with its
  entries (name and payload).
\<close>

datatype content = Payload nat | Truncated | Archive "(string \<times> nat) list"

text \<open>What the server does with a request for a URL.\<close>

datatype transfer = Refused | Cut_off | Delivered content

text \<open>
  The output directory (file name to content), with the calls issued and the lines
  printed so far.
\<close>

record fs =
  files :: "string \<rightharpoonup> content"
  fs_effects :: "effect list"
  fs_stdout :: "out list"

datatype 'a fres = Done 'a fs | Fail exn fs

definition fs_emit :: "effect \<Rightarrow> fs \<Rightarrow> fs" where
  "fs_emit x s = s\<lparr>fs_effects := fs_effects s @ [x]\<rparr>"

definition fs_print :: "out \<Rightarrow> fs \<Rightarrow> fs" where
  "fs_print l s = s\<lparr>fs_stdout := fs_stdout s @ [l]\<rparr>"

definition endswith :: "string \<Rightarrow> string \<Rightarrow> bool" where
  "endswith s suf = (length suf \<le> length s \<and> drop (length s - length suf) s = suf)"

text \<open>
  \<^verbatim>\<open>urllib.request.urlretrieve(url, filename)\<close>: it opens the URL, then opens the
  file for writing and copies the response into it block by block; a transfer that ends
  early raises after the blocks received were written. \<open>unwritable\<close> holds the file
  names the disk refuses to write.
\<close>

definition urlretrieve ::
  "(string \<Rightarrow> transfer) \<Rightarrow> string set \<Rightarrow> string \<Rightarrow> string \<Rightarrow> fs \<Rightarrow> unit fres" where
  "urlretrieve server unwritable url filename s =
     (let s1 = fs_emit (URLRETRIEVE url filename) s in
      case server url of
        Refused \<Rightarrow> Fail URLError s1
      | Cut_off \<Rightarrow>
          if filename \<in> unwritable then Fail OSError s1
          else Fail ContentTooShortError (s1\<lparr>files := (files s1)(filename \<mapsto> Truncated)\<rparr>)
      | Delivered c \<Rightarrow>
          if filename \<in> unwritable then Fail OSError s1
          else Done () (s1\<lparr>files := (files s1)(filename \<mapsto> c)\<rparr>))"

text \<open>
  The loop over \<^verbatim>\<open>zf.namelist()\<close>: every entry whose name ends in
  \<^verbatim>\<open>.onnx\<close> is extracted into the output directory under its own name.
\<close>

fun extract_onnx :: "string set \<Rightarrow> (string \<times> nat) list \<Rightarrow> fs \<Rightarrow> unit fres" where
  "extract_onnx unwritable [] s = Done () s"
| "extract_onnx unwritable ((file_info, p) # rest) s =
     (if endswith file_info ''.onnx''
      then
        let s1 = fs_emit (EXTRACT file_info) s in
        if file_info \<in> unwritable then Fail OSError s1
        else extract_onnx unwritable rest (s1\<lparr>files := (files s1)(file_info \<mapsto> Payload p)\<rparr>)
      else extract_onnx unwritable rest s)"

definition unlink :: "string \<Rightarrow> fs \<Rightarrow> unit fres" where
  "unlink path s =
     (let s1 = fs_emit (UNLINK path) s in
      if files s1 path = None then Fail FileNotFoundError s1
      else Done () (s1\<lparr>files := (files s1)(path := None)\<rparr>))"

definition download_model ::
  "(string \<Rightarrow> transfer) \<Rightarrow> string set \<Rightarrow> model \<Rightarrow> fs \<Rightarrow> unit fres" where
  "download_model server unwritable m s =
     (let url = m_url m; output_file = m_output m in
      if files s output_file \<noteq> None then Done () (fs_print (Skip_exists (m_output m)) s)
      else if endswith url ''.zip''
      then
        let zip_path = m_id m @ ''_temp.zip'' in
        case urlretrieve server unwritable url zip_path (fs_print (Msg_downloading (m_name m)) s) of
          Fail x s1 \<Rightarrow> Fail x s1
        | Done _ s1 \<Rightarrow>
            (case files s1 zip_path of
               Some (Archive entries) \<Rightarrow>
                 (case extract_onnx unwritable entries (fs_print Msg_extracting s1) of
                    Fail x s2 \<Rightarrow> Fail x s2
                  | Done _ s2 \<Rightarrow>
                      (case unlink zip_path s2 of
                         Fail x s3 \<Rightarrow> Fail x s3
                       | Done _ s3 \<Rightarrow> Done () (fs_print (Msg_ok (m_output m)) s3)))
             | _ \<Rightarrow> Fail BadZipFile (fs_print Msg_extracting s1))
      else
        case urlretrieve server unwritable url output_file (fs_print (Msg_downloading (m_name m)) s) of
          Fail x s1 \<Rightarrow> Fail x s1
        | Done _ s1 \<Rightarrow> Done () (fs_print (Msg_ok (m_output m)) s1))"

section \<open>Concrete runs\<close>

text \<open>
  A descriptor with the given id, file name and registry name, and an environment in
  which the manifest loads, the session opens, the query succeeds and no registry call
  is rejected.
\<close>

definition descriptor :: "string \<Rightarrow> string \<Rightarrow> string \<Rightarrow> model" where
  "descriptor i f n =
     \<lparr>m_id = i, m_name = i, m_url = ''https://host/'' @ f, m_output = f,
      m_db_model_name = n, m_description = []\<rparr>"

definition healthy :: "config \<Rightarrow> string set \<Rightarrow> env" where
  "healthy c fs =
     \<lparr>manifest = Document c, password_set = True, connect_ok = True, select_ok = True,
      onnx_files = fs, load_faults = {}, drop_faults = {}, drop_missing_raises = False,
      answer = Reply_y\<rparr>"

definition abc :: config where
  "abc = [descriptor ''a'' ''a.onnx'' ''MODEL_A'',
          descriptor ''b'' ''b.onnx'' ''MODEL_B'',
          descriptor ''c'' ''c.onnx'' ''MODEL_C'']"

definition register_all :: load_args where
  "register_all = \<lparr>model_id = None, list_flag = False, force_flag = False\<rparr>"

definition register_one :: "string \<Rightarrow> bool \<Rightarrow> load_args" where
  "register_one i force = \<lparr>model_id = Some i, list_flag = False, force_flag = force\<rparr>"

definition empty_fs :: fs where
  "empty_fs = \<lparr>files = Map.empty, fs_effects = [], fs_stdout = []\<rparr>"

definition zipped :: model where
  "zipped = (descriptor ''z'' ''z.onnx'' ''MODEL_Z'')\<lparr>m_url := ''https://host/z.zip''\<rparr>"

definition fs_of :: "'a fres \<Rightarrow> fs" where
  "fs_of r = (case r of Done _ s \<Rightarrow> s | Fail _ s \<Rightarrow> s)"

definition raised :: "'a fres \<Rightarrow> exn option" where
  "raised r = (case r of Done _ _ \<Rightarrow> None | Fail x _ \<Rightarrow> Some x)"

text \<open>
  Three servers: one that cuts every transfer off, one that answers with a payload that
  is no archive, and one that answers with an archive of two entries.
\<close>

definition cuts_off :: "string \<Rightarrow> transfer" where
  "cuts_off url = Cut_off"

definition serves_payload :: "string \<Rightarrow> transfer" where
  "serves_payload url = Delivered (Payload 7)"

definition serves_archive :: "string \<Rightarrow> transfer" where
  "serves_archive url = Delivered (Archive [(''z.onnx'', 1), (''readme.txt'', 2)])"

text \<open>
  The plan that the explicit ids of a deregister run lead to when every id has a
  descriptor, written as the amended claim C9 words it: one entry for each requested
  occurrence of an id whose registry name is registered, in request order.
\<close>

definition requested_plan :: "config \<Rightarrow> string list \<Rightarrow> string list \<Rightarrow> plan" where
  "requested_plan c loaded_models ids =
     map (\<lambda>i. (m_db_model_name (the (get_model_by_id c i)), Some i))
       (filter (\<lambda>i. m_db_model_name (the (get_model_by_id c i)) \<in> set loaded_models) ids)"

definition deregister_all :: drop_args where
  "deregister_all = \<lparr>model_ids = [], all_flag = True, list_only = False, yes_flag = False\<rparr>"


definition deregister :: "string list \<Rightarrow> drop_args" where
  "deregister ids = \<lparr>model_ids = ids, all_flag = False, list_only = False, yes_flag = True\<rparr>"



fun fetch_call :: "effect \<Rightarrow> bool" where
  "fetch_call (URLRETRIEVE u f) = True"
| "fetch_call (EXTRACT f) = True"
| "fetch_call (UNLINK f) = True"
| "fetch_call _ = False"

definition register_call :: "env \<Rightarrow> effect \<Rightarrow> bool" where
  "register_call e x \<longleftrightarrow> \<not> fetch_call x \<and> (\<forall>f n. x = LOAD_ONNX_MODEL f n \<longrightarrow> f \<in> onnx_files e)"

section \<open>Basic facts\<close>

lemma state_of_simps [simp]: "state_of (Ok v s) = s" "state_of (Raise x s) = s"
  by (simp_all add: state_of_def)

lemma emit_simps [simp]:
  "mining_models (emit x s) = mining_models s"
  "effects (emit x s) = effects s @ [x]"
  "stdout (emit x s) = stdout s"
  by (simp_all add: emit_def)

lemma print_simps [simp]:
  "mining_models (print ls s) = mining_models s"
  "effects (print ls s) = effects s"
  "stdout (print ls s) = stdout s @ ls"
  by (simp_all add: print_def)

lemma start_simps [simp]:
  "mining_models (start rows) = rows" "effects (start rows) = []" "stdout (start rows) = []"
  by (simp_all add: start_def)

lemma print_print: "print ys (print xs s) = print (xs @ ys) s"
  by (simp add: print_def)

lemmas run_defs =
  main_load_def load_config_def get_db_connection_def get_loaded_models_def load_body_def
  models_to_load_def truthy_def list_models_def load_step_def load_model_def drop_model_def
  db_load_def db_drop_def finally_close_def start_def emit_def print_def
  healthy_def descriptor_def abc_def register_all_def register_one_def Let_def

lemma load_loop_append:
  "load_loop e force L (xs @ ys) cnt s =
     (case load_loop e force L xs cnt s of
        Raise x s1 \<Rightarrow> Raise x s1
      | Ok cnt1 s1 \<Rightarrow> load_loop e force L ys cnt1 s1)"
  by (induction xs arbitrary: cnt s) (auto split: res.splits)

lemma load_step_no_summary:
  "Msg_done_load a b \<notin> set (stdout s) \<Longrightarrow>
   Msg_done_load a b \<notin> set (stdout (state_of (load_step e force L m cnt s)))"
  by (auto simp: load_step_def load_model_def drop_model_def Let_def
           split: if_splits res.splits sum.splits bool.splits)

lemma load_loop_no_summary:
  "Msg_done_load a b \<notin> set (stdout s) \<Longrightarrow>
   Msg_done_load a b \<notin> set (stdout (state_of (load_loop e force L ms cnt s)))"
proof (induction ms arbitrary: cnt s)
  case Nil
  then show ?case by simp
next
  case (Cons m ms)
  show ?case
  proof (cases "load_step e force L m cnt s")
    case (Ok cnt1 s1)
    with load_step_no_summary [OF Cons.prems, of e force L m cnt]
    have "Msg_done_load a b \<notin> set (stdout s1)" by simp
    from Cons.IH [OF this] Ok show ?thesis by simp
  next
    case (Raise x s1)
    with load_step_no_summary [OF Cons.prems, of e force L m cnt]
    show ?thesis by simp
  qed
qed

section \<open>Failure of a registry call during registration\<close>

text \<open>
  C1, as the specification states it: a registry failure on one descriptor of a batch is
  isolated, the remaining descriptors are still attempted and a summary with succeeded
  and failed counts is printed. The register loop has no handler around a descriptor, so
  the claim fails: with three descriptors whose files exist and a backend that rejects
  the second name, the run ends with the database error after the second call; the third
  descriptor is never attempted and no summary line is printed.
\<close>

theorem registry_failure_aborts_the_batch:
  "main_load ((healthy abc {''a.onnx'', ''b.onnx'', ''c.onnx''})\<lparr>load_faults := {''MODEL_B''}\<rparr>)
     register_all [] =
   (Some DatabaseError,
    \<lparr>mining_models = [''MODEL_A''],
     effects = [CONNECT, SELECT_MODEL_NAME, LOAD_ONNX_MODEL ''a.onnx'' ''MODEL_A'',
                LOAD_ONNX_MODEL ''b.onnx'' ''MODEL_B'', CLOSE],
     stdout = [Msg_start 3, Header ''a'' ''a'', Msg_load ''MODEL_A'', Header ''b'' ''b'']\<rparr>)"
  by (simp add: run_defs)

text \<open>
  C1, amended: in every batch of register targets, when a registry call raises while
  one descriptor is processed, the run ends there with that exception. The descriptors
  before it keep their outcome, the descriptors after it are not attempted (the final
  state is the state at the failing call, with the session closed, whatever follows in
  the batch), and no summary line is printed.
\<close>

theorem registry_failure_ends_the_run:
  assumes env: "manifest e = Document c" "password_set e" "connect_ok e" "select_ok e"
    and mode: "\<not> list_flag args"
    and batch: "models_to_load args c = before @ m # rest"
    and before: "load_loop e (force_flag args) (remdups rows) before (0, 0)
        (print [Msg_start (length (models_to_load args c))]
           (emit SELECT_MODEL_NAME (emit CONNECT (start rows)))) = Ok cnt s1"
    and failure: "load_step e (force_flag args) (remdups rows) m cnt s1 = Raise x s2"
  shows "main_load e args rows = (Some x, emit CLOSE s2) \<and>
         (\<forall>a b. Msg_done_load a b \<notin> set (stdout s2))"
proof -
  define s0 where "s0 = print [Msg_start (length (models_to_load args c))]
                          (emit SELECT_MODEL_NAME (emit CONNECT (start rows)))"
  have "load_loop e (force_flag args) (remdups rows) (before @ m # rest) (0, 0) s0 = Raise x s2"
    using before failure by (simp add: load_loop_append s0_def)
  then have loop:
    "load_loop e (force_flag args) (remdups rows) (models_to_load args c) (0, 0) s0 = Raise x s2"
    by (simp add: batch)
  have "main_load e args rows = (Some x, emit CLOSE s2)"
    using env mode batch loop
    by (simp add: main_load_def load_config_def get_db_connection_def load_body_def
          get_loaded_models_def finally_close_def start_def s0_def)
  moreover have "Msg_done_load a b \<notin> set (stdout s2)" for a b
  proof -
    have "Msg_done_load a b \<notin> set (stdout s0)" by (simp add: start_def s0_def)
    from load_loop_no_summary [OF this, of e "force_flag args" "remdups rows" "models_to_load args c" "(0, 0)"]
    show ?thesis by (simp add: loop)
  qed
  ultimately show ?thesis by blast
qed

theorem registry_failure_ends_the_run_witness:
  "main_load ((healthy abc {''a.onnx'', ''c.onnx''})\<lparr>drop_faults := {''MODEL_A''}\<rparr>)
     \<lparr>model_id = None, list_flag = False, force_flag = True\<rparr> [''MODEL_A''] =
   (Some DatabaseError,
    emit CLOSE \<lparr>mining_models = [''MODEL_A''],
                effects = [CONNECT, SELECT_MODEL_NAME, DROP_ONNX_MODEL ''MODEL_A''],
                stdout = [Msg_start 3, Header ''a'' ''a'']\<rparr>)"
proof -
  let ?e = "(healthy abc {''a.onnx'', ''c.onnx''})\<lparr>drop_faults := {''MODEL_A''}\<rparr>"
  let ?args = "\<lparr>model_id = None, list_flag = False, force_flag = True\<rparr>"
  have "main_load ?e ?args [''MODEL_A''] =
          (Some DatabaseError,
           emit CLOSE \<lparr>mining_models = [''MODEL_A''],
                       effects = [CONNECT, SELECT_MODEL_NAME, DROP_ONNX_MODEL ''MODEL_A''],
                       stdout = [Msg_start 3, Header ''a'' ''a'']\<rparr>) \<and>
        (\<forall>a b. Msg_done_load a b \<notin> set (stdout
           \<lparr>mining_models = [''MODEL_A''],
            effects = [CONNECT, SELECT_MODEL_NAME, DROP_ONNX_MODEL ''MODEL_A''],
            stdout = [Msg_start 3, Header ''a'' ''a'']\<rparr>))"
    by (rule registry_failure_ends_the_run
          [where c = abc and before = "[]" and m = "descriptor ''a'' ''a.onnx'' ''MODEL_A''"
             and rest = "[descriptor ''b'' ''b.onnx'' ''MODEL_B'', descriptor ''c'' ''c.onnx'' ''MODEL_C'']"
             and cnt = "(0, 0)"
             and ?s1.0 = "\<lparr>mining_models = [''MODEL_A''], effects = [CONNECT, SELECT_MODEL_NAME],
                           stdout = [Msg_start 3]\<rparr>"])
       (simp_all add: run_defs)
  then show ?thesis by blast
qed

section \<open>Loading the manifest\<close>

text \<open>
  C5, as the specification states it: loading the manifest fails with a configuration
  error when two descriptors share an id or a registry name. \<^verbatim>\<open>load_config\<close> only
  parses the file, so the claim fails: a manifest whose two descriptors have the same id
  and the same registry name loads.
\<close>

theorem duplicate_descriptors_load:
  "load_config (healthy [descriptor ''a'' ''a.onnx'' ''MODEL_A'',
                         descriptor ''a'' ''b.onnx'' ''MODEL_A''] {}) =
     Inr [descriptor ''a'' ''a.onnx'' ''MODEL_A'', descriptor ''a'' ''b.onnx'' ''MODEL_A'']"
  by (simp add: load_config_def healthy_def)

text \<open>
  C5, amended: loading the manifest succeeds for every manifest document and returns
  its descriptors as they are, whether or not their ids and registry names are distinct;
  it fails exactly when the file is missing or is not a JSON document, and then both the
  register and the deregister script end with an exception before any database I/O.
\<close>

theorem load_config_checks_no_uniqueness:
  "(manifest e = Document c \<longrightarrow> load_config e = Inr c) \<and>
   (manifest e \<noteq> Document c \<longrightarrow> load_config e \<noteq> Inr c) \<and>
   ((\<forall>d. manifest e \<noteq> Document d) \<longrightarrow>
      fst (main_load e largs rows) \<noteq> None \<and> effects (snd (main_load e largs rows)) = [] \<and>
      fst (main_drop e dargs rows) \<noteq> None \<and> effects (snd (main_drop e dargs rows)) = [])"
  by (cases "manifest e")
     (auto simp: load_config_def main_load_def main_drop_def start_def)

theorem load_config_checks_no_uniqueness_witness:
  "load_config (healthy abc {}) = Inr abc \<and>
   load_config ((healthy abc {})\<lparr>manifest := No_file\<rparr>) \<noteq> Inr abc \<and>
   fst (main_load ((healthy abc {})\<lparr>manifest := No_file\<rparr>) register_all [''MODEL_A'']) \<noteq> None \<and>
   effects (snd (main_load ((healthy abc {})\<lparr>manifest := No_file\<rparr>) register_all [''MODEL_A''])) = []"
  using load_config_checks_no_uniqueness [of "healthy abc {}" abc]
    load_config_checks_no_uniqueness
      [of "(healthy abc {})\<lparr>manifest := No_file\<rparr>" abc register_all "[''MODEL_A'']"]
  by (simp add: healthy_def)

section \<open>An explicit target id that the manifest does not have\<close>

lemma get_model_by_id_None: "get_model_by_id c i = None \<longleftrightarrow> i \<notin> m_id ` set c"
  by (auto simp: get_model_by_id_def find_None_iff)

lemma plan_ids_unknown:
  "\<not> set ids \<subseteq> m_id ` set c \<Longrightarrow>
   \<exists>j ws. j \<in> set ids \<and> j \<notin> m_id ` set c \<and> (\<forall>w\<in>set ws. \<exists>a b. w = Warn_not_loaded a b) \<and>
     plan_ids c L ids acc s =
       Raise (SystemExit 1) (print (ws @ Err_not_found j # map (\<lambda>m. Valid_id (m_id m)) c) s)"
proof (induction ids arbitrary: acc s)
  case Nil
  then show ?case by simp
next
  case (Cons i ids)
  show ?case
  proof (cases "get_model_by_id c i")
    case None
    then have "i \<notin> m_id ` set c" by (simp add: get_model_by_id_None)
    with None show ?thesis
      by (intro exI [of _ i] exI [of _ "[]"]) simp
  next
    case (Some m)
    then have "i \<in> m_id ` set c" using get_model_by_id_None [of c i] by auto
    with Cons.prems have rest: "\<not> set ids \<subseteq> m_id ` set c" by auto
    show ?thesis
    proof (cases "m_db_model_name m \<in> set L")
      case True
      from Cons.IH [OF rest, of "acc @ [(m_db_model_name m, Some i)]" s]
      obtain j ws where "j \<in> set ids" "j \<notin> m_id ` set c"
        "\<forall>w\<in>set ws. \<exists>a b. w = Warn_not_loaded a b"
        "plan_ids c L ids (acc @ [(m_db_model_name m, Some i)]) s =
           Raise (SystemExit 1) (print (ws @ Err_not_found j # map (\<lambda>m. Valid_id (m_id m)) c) s)"
        by blast
      with Some True show ?thesis
        by (intro exI [of _ j] exI [of _ ws]) simp
    next
      case False
      from Cons.IH [OF rest, of acc "print [Warn_not_loaded i (m_db_model_name m)] s"]
      obtain j ws where "j \<in> set ids" "j \<notin> m_id ` set c"
        "\<forall>w\<in>set ws. \<exists>a b. w = Warn_not_loaded a b"
        "plan_ids c L ids acc (print [Warn_not_loaded i (m_db_model_name m)] s) =
           Raise (SystemExit 1) (print (ws @ Err_not_found j # map (\<lambda>m. Valid_id (m_id m)) c)
              (print [Warn_not_loaded i (m_db_model_name m)] s))"
        by blast
      with Some False show ?thesis
        by (intro exI [of _ j] exI [of _ "Warn_not_loaded i (m_db_model_name m) # ws"])
           (simp add: print_print)
    qed
  qed
qed

text \<open>
  C6, as the specification states it: every invocation that names a target id without
  a manifest descriptor exits with a non-zero status and the list of valid ids, with no
  mutation. Two invocations of the register script show that this fails as stated: with
  \<^verbatim>\<open>--list\<close> the unknown id is ignored, the status table is printed and the run
  returns normally; with the empty string as the id the truth test on the argument
  takes it for no argument, and the whole manifest is registered.
\<close>

theorem unknown_id_not_always_fatal:
  "main_load (healthy abc {''a.onnx''})
      \<lparr>model_id = Some ''zz'', list_flag = True, force_flag = False\<rparr> [] =
    (None,
     \<lparr>mining_models = [], effects = [CONNECT, SELECT_MODEL_NAME, CLOSE],
      stdout = [Row_status ''a'' False [], Row_status ''b'' False [], Row_status ''c'' False []]\<rparr>)
   \<and> main_load (healthy abc {''a.onnx''}) (register_one [] False) [] =
    (None,
     \<lparr>mining_models = [''MODEL_A''],
      effects = [CONNECT, SELECT_MODEL_NAME, LOAD_ONNX_MODEL ''a.onnx'' ''MODEL_A'', CLOSE],
      stdout = [Msg_start 3, Header ''a'' ''a'', Msg_load ''MODEL_A'', Header ''b'' ''b'',
                Skip_no_file ''b.onnx'', Hint_download ''b'', Header ''c'' ''c'',
                Skip_no_file ''c.onnx'', Hint_download ''c'', Msg_done_load 1 2]\<rparr>)"
  by (simp add: run_defs)

text \<open>
  C6, amended: once the manifest is loaded, the session is open and the snapshot is
  read, every register run without \<^verbatim>\<open>--list\<close> that names a non-empty id without a
  descriptor, and every deregister run without \<^verbatim>\<open>--list\<close> and \<^verbatim>\<open>--all\<close> in
  which some requested id has no descriptor, exits with status 1 after printing the
  unknown id and the valid ids; the registry is unchanged and the only calls issued are
  the connection, the snapshot query and the close.
\<close>

theorem unknown_id_exits_before_any_mutation:
  assumes env: "manifest e = Document c" "password_set e" "connect_ok e" "select_ok e"
  shows "(model_id largs = Some i \<and> i \<noteq> [] \<and> \<not> list_flag largs \<and> i \<notin> m_id ` set c \<longrightarrow>
            main_load e largs rows =
              (Some (SystemExit 1),
               \<lparr>mining_models = rows, effects = [CONNECT, SELECT_MODEL_NAME, CLOSE],
                stdout = Err_not_found i #
                  map (\<lambda>m. Row_status (m_id m) (m_db_model_name m \<in> set rows) (m_description m)) c\<rparr>))
       \<and> (\<not> list_only dargs \<and> \<not> all_flag dargs \<and> \<not> set (model_ids dargs) \<subseteq> m_id ` set c \<longrightarrow>
            (\<exists>j ws. j \<in> set (model_ids dargs) \<and> j \<notin> m_id ` set c \<and>
               (\<forall>w\<in>set ws. \<exists>a b. w = Warn_not_loaded a b) \<and>
               main_drop e dargs rows =
                 (Some (SystemExit 1),
                  \<lparr>mining_models = rows, effects = [CONNECT, SELECT_MODEL_NAME, CLOSE],
                   stdout = ws @ Err_not_found j # map (\<lambda>m. Valid_id (m_id m)) c\<rparr>)))"
proof (intro conjI impI)
  assume a: "model_id largs = Some i \<and> i \<noteq> [] \<and> \<not> list_flag largs \<and> i \<notin> m_id ` set c"
  then have "filter (\<lambda>m. Some (m_id m) = model_id largs) c = []"
    by (auto simp: filter_empty_conv)
  with a env show "main_load e largs rows =
              (Some (SystemExit 1),
               \<lparr>mining_models = rows, effects = [CONNECT, SELECT_MODEL_NAME, CLOSE],
                stdout = Err_not_found i #
                  map (\<lambda>m. Row_status (m_id m) (m_db_model_name m \<in> set rows) (m_description m)) c\<rparr>)"
    by (simp add: main_load_def load_config_def get_db_connection_def load_body_def
          get_loaded_models_def finally_close_def start_def models_to_load_def truthy_def
          list_models_def emit_def print_def)
next
  assume a: "\<not> list_only dargs \<and> \<not> all_flag dargs \<and> \<not> set (model_ids dargs) \<subseteq> m_id ` set c"
  then have ne: "model_ids dargs \<noteq> []" by auto
  let ?s1 = "emit SELECT_MODEL_NAME (emit CONNECT (start rows))"
  from plan_ids_unknown [of "model_ids dargs" c "remdups rows" "[]" ?s1] a
  obtain j ws where j: "j \<in> set (model_ids dargs)" "j \<notin> m_id ` set c"
    "\<forall>w\<in>set ws. \<exists>a b. w = Warn_not_loaded a b"
    and p: "plan_ids c (remdups rows) (model_ids dargs) [] ?s1 =
       Raise (SystemExit 1) (print (ws @ Err_not_found j # map (\<lambda>m. Valid_id (m_id m)) c) ?s1)"
    by blast
  have "main_drop e dargs rows =
                 (Some (SystemExit 1),
                  \<lparr>mining_models = rows, effects = [CONNECT, SELECT_MODEL_NAME, CLOSE],
                   stdout = ws @ Err_not_found j # map (\<lambda>m. Valid_id (m_id m)) c\<rparr>)"
    using a ne env p
    by (simp add: main_drop_def load_config_def get_db_connection_def drop_body_def
          get_loaded_models_def finally_close_def)
  with j show "\<exists>j ws. j \<in> set (model_ids dargs) \<and> j \<notin> m_id ` set c \<and>
               (\<forall>w\<in>set ws. \<exists>a b. w = Warn_not_loaded a b) \<and>
               main_drop e dargs rows =
                 (Some (SystemExit 1),
                  \<lparr>mining_models = rows, effects = [CONNECT, SELECT_MODEL_NAME, CLOSE],
                   stdout = ws @ Err_not_found j # map (\<lambda>m. Valid_id (m_id m)) c\<rparr>)"
    by blast
qed

theorem unknown_id_exits_before_any_mutation_witness:
  "main_load (healthy abc {''a.onnx''}) (register_one ''zz'' True) [''MODEL_A''] =
     (Some (SystemExit 1),
      \<lparr>mining_models = [''MODEL_A''], effects = [CONNECT, SELECT_MODEL_NAME, CLOSE],
       stdout = [Err_not_found ''zz'', Row_status ''a'' True [], Row_status ''b'' False [],
                 Row_status ''c'' False []]\<rparr>) \<and>
   fst (main_drop (healthy abc {})
          \<lparr>model_ids = [''a'', ''zz''], all_flag = False, list_only = False, yes_flag = True\<rparr>
          [''MODEL_A'']) = Some (SystemExit 1) \<and>
   mining_models (snd (main_drop (healthy abc {})
          \<lparr>model_ids = [''a'', ''zz''], all_flag = False, list_only = False, yes_flag = True\<rparr>
          [''MODEL_A''])) = [''MODEL_A'']"
proof -
  let ?e = "healthy abc {''a.onnx''}"
  let ?d = "\<lparr>model_ids = [''a'', ''zz''], all_flag = False, list_only = False, yes_flag = True\<rparr>"
  have env: "manifest ?e = Document abc" "password_set ?e" "connect_ok ?e" "select_ok ?e"
    and env': "manifest (healthy abc {}) = Document abc" "password_set (healthy abc {})"
      "connect_ok (healthy abc {})" "select_ok (healthy abc {})"
    by (simp_all add: healthy_def)
  have ids: "m_id ` set abc = {''a'', ''b'', ''c''}"
    by (auto simp: abc_def descriptor_def)
  have "main_load ?e (register_one ''zz'' True) [''MODEL_A''] =
     (Some (SystemExit 1),
      \<lparr>mining_models = [''MODEL_A''], effects = [CONNECT, SELECT_MODEL_NAME, CLOSE],
       stdout = Err_not_found ''zz'' #
         map (\<lambda>m. Row_status (m_id m) (m_db_model_name m \<in> set [''MODEL_A'']) (m_description m)) abc\<rparr>)"
    by (rule unknown_id_exits_before_any_mutation
          [OF env, where largs = "register_one ''zz'' True" and i = "''zz''",
           THEN conjunct1, THEN mp])
       (simp add: ids register_one_def)
  then have first: "main_load ?e (register_one ''zz'' True) [''MODEL_A''] =
     (Some (SystemExit 1),
      \<lparr>mining_models = [''MODEL_A''], effects = [CONNECT, SELECT_MODEL_NAME, CLOSE],
       stdout = [Err_not_found ''zz'', Row_status ''a'' True [], Row_status ''b'' False [],
                 Row_status ''c'' False []]\<rparr>)"
    by (simp add: abc_def descriptor_def)
  have "\<exists>j ws. j \<in> set (model_ids ?d) \<and> j \<notin> m_id ` set abc \<and>
          (\<forall>w\<in>set ws. \<exists>a b. w = Warn_not_loaded a b) \<and>
          main_drop (healthy abc {}) ?d [''MODEL_A''] =
            (Some (SystemExit 1),
             \<lparr>mining_models = [''MODEL_A''], effects = [CONNECT, SELECT_MODEL_NAME, CLOSE],
              stdout = ws @ Err_not_found j # map (\<lambda>m. Valid_id (m_id m)) abc\<rparr>)"
    by (rule unknown_id_exits_before_any_mutation
          [OF env', where dargs = ?d, THEN conjunct2, THEN mp])
       (simp add: ids)
  then have "fst (main_drop (healthy abc {}) ?d [''MODEL_A'']) = Some (SystemExit 1) \<and>
             mining_models (snd (main_drop (healthy abc {}) ?d [''MODEL_A''])) = [''MODEL_A'']"
    by auto
  with first show ?thesis by blast
qed

section \<open>Ids requested more than once\<close>

lemma plan_ids_known:
  "set ids \<subseteq> m_id ` set c \<Longrightarrow>
   \<exists>s1. plan_ids c L ids acc s = Ok (acc @ requested_plan c L ids) s1 \<and>
        effects s1 = effects s \<and> mining_models s1 = mining_models s"
proof (induction ids arbitrary: acc s)
  case Nil
  then show ?case by (simp add: requested_plan_def)
next
  case (Cons i ids)
  then obtain m where m: "get_model_by_id c i = Some m"
    using get_model_by_id_None [of c i] by auto
  from Cons.prems have rest: "set ids \<subseteq> m_id ` set c" by simp
  show ?case
  proof (cases "m_db_model_name m \<in> set L")
    case True
    from Cons.IH [OF rest, of "acc @ [(m_db_model_name m, Some i)]" s] m True
    show ?thesis by (simp add: requested_plan_def)
  next
    case False
    from Cons.IH [OF rest, of acc "print [Warn_not_loaded i (m_db_model_name m)] s"] m False
    show ?thesis by (simp add: requested_plan_def)
  qed
qed

lemma drop_model_effects:
  "effects (state_of (drop_model e n s)) = effects s @ [DROP_ONNX_MODEL n]"
  by (simp add: drop_model_def state_of_def Let_def split: sum.splits)

lemma drop_model_Ok_effects:
  "drop_model e n s = Ok u s1 \<Longrightarrow> effects s1 = effects s @ [DROP_ONNX_MODEL n]"
  using drop_model_effects [of e n s] by (simp add: state_of_def)

lemma drop_loop_counts:
  "drop_loop e c P k s = Ok k1 s1 \<Longrightarrow>
   k1 = k + length P \<and> effects s1 = effects s @ map (\<lambda>(n, i). DROP_ONNX_MODEL n) P"
proof (induction P arbitrary: k s)
  case Nil
  then show ?case by simp
next
  case (Cons p P)
  obtain n i where p: "p = (n, i)" by (cases p)
  define s2 where "s2 = (if truthy i
     then print [Header (the i) (m_name (the (get_model_by_id c (the i))))] s
     else print [Header_unknown n] s)"
  have h: "effects s2 = effects s" by (simp add: s2_def)
  from Cons.prems p obtain s3 where d: "drop_model e n s2 = Ok () s3"
    and r: "drop_loop e c P (k + 1) s3 = Ok k1 s1"
    by (auto simp: s2_def split: if_splits option.splits res.splits)
  from drop_model_Ok_effects [OF d] h have "effects s3 = effects s @ [DROP_ONNX_MODEL n]"
    by simp
  with Cons.IH [OF r] p show ?case by simp
qed

text \<open>
  C9, as the specification states it: an id requested twice is deduplicated before
  planning, acted on at most once and counted at most once. The deregister script
  appends one plan entry for every requested id, so the claim fails: requesting the
  registered id \<open>a\<close> twice issues the drop of \<open>MODEL_A\<close> twice and the summary
  counts two.
\<close>

theorem id_requested_twice_is_dropped_twice:
  "main_drop (healthy abc {}) (deregister [''a'', ''a'']) [''MODEL_A''] =
     (None,
      \<lparr>mining_models = [],
       effects = [CONNECT, SELECT_MODEL_NAME, DROP_ONNX_MODEL ''MODEL_A'',
                  DROP_ONNX_MODEL ''MODEL_A'', CLOSE],
       stdout = [Header ''a'' ''a'', Msg_drop ''MODEL_A'', Header ''a'' ''a'',
                 Msg_drop ''MODEL_A'', Msg_done_drop 2]\<rparr>)"
  by (simp add: main_drop_def drop_body_def deregister_def get_model_by_id_def drop_model_def
        db_drop_def load_config_def get_db_connection_def get_loaded_models_def
        finally_close_def truthy_def start_def emit_def print_def healthy_def abc_def
        descriptor_def Let_def)

text \<open>
  C9, amended: requested ids are not deduplicated. In a deregister run for explicit ids
  that all have a descriptor, that is confirmed and that returns normally, every
  requested occurrence of an id whose registry name is registered is one plan entry: the
  drops issued are those of the plan, in request order, one for each occurrence, and the
  summary counts one for each occurrence.
\<close>

theorem requested_ids_are_not_deduplicated:
  assumes env: "manifest e = Document c" "password_set e" "connect_ok e" "select_ok e"
    and mode: "\<not> list_only args" "\<not> all_flag args" "yes_flag args \<or> answer e = Reply_y"
    and known: "set (model_ids args) \<subseteq> m_id ` set c"
    and some: "requested_plan c rows (model_ids args) \<noteq> []"
    and returns: "fst (main_drop e args rows) = None"
  shows "effects (snd (main_drop e args rows)) =
           [CONNECT, SELECT_MODEL_NAME] @
           map (\<lambda>(n, i). DROP_ONNX_MODEL n) (requested_plan c rows (model_ids args)) @ [CLOSE] \<and>
         last (stdout (snd (main_drop e args rows))) =
           Msg_done_drop (length (requested_plan c rows (model_ids args)))"
proof -
  let ?P = "requested_plan c rows (model_ids args)"
  let ?s1 = "emit SELECT_MODEL_NAME (emit CONNECT (start rows))"
  have P: "requested_plan c (remdups rows) (model_ids args) = ?P" by (simp add: requested_plan_def)
  from some have ne: "model_ids args \<noteq> []" by (auto simp: requested_plan_def)
  from plan_ids_known [OF known, of "remdups rows" "[]" ?s1] P
  obtain s2 where p: "plan_ids c (remdups rows) (model_ids args) [] ?s1 = Ok ?P s2"
    and e2: "effects s2 = [CONNECT, SELECT_MODEL_NAME]"
    by (auto simp: start_def)
  define s3 where "s3 = snd (if yes_flag args then (True, s2) else confirm_deletion e ?P s2)"
  have go: "fst (if yes_flag args then (True, s2) else confirm_deletion e ?P s2)"
    using mode by (auto simp: confirm_deletion_def Let_def)
  have e3: "effects s3 = [CONNECT, SELECT_MODEL_NAME]"
    using mode e2 by (auto simp: s3_def confirm_deletion_def Let_def)
  have body: "drop_body e args c (emit CONNECT (start rows)) =
      (case drop_loop e c ?P 0 s3 of
         Raise x s4 \<Rightarrow> Raise x s4
       | Ok dropped_count s4 \<Rightarrow> Ok () (print [Msg_done_drop dropped_count] s4))"
    using env mode p some go
    by (simp add: drop_body_def get_loaded_models_def Let_def s3_def)
  have m: "main_drop e args rows = finally_close (drop_body e args c (emit CONNECT (start rows)))"
    using env mode ne by (simp add: main_drop_def load_config_def get_db_connection_def)
  show ?thesis
  proof (cases "drop_loop e c ?P 0 s3")
    case (Ok k s4)
    from drop_loop_counts [OF Ok] e3 Ok show ?thesis
      by (simp add: m body finally_close_def)
  next
    case (Raise x s4)
    with returns show ?thesis by (simp add: m body finally_close_def)
  qed
qed

theorem requested_ids_are_not_deduplicated_witness:
  "effects (snd (main_drop (healthy abc {}) (deregister [''a'', ''b'', ''a'']) [''MODEL_A''])) =
     [CONNECT, SELECT_MODEL_NAME, DROP_ONNX_MODEL ''MODEL_A'', DROP_ONNX_MODEL ''MODEL_A'', CLOSE] \<and>
   last (stdout (snd (main_drop (healthy abc {}) (deregister [''a'', ''b'', ''a'']) [''MODEL_A'']))) =
     Msg_done_drop 2"
proof -
  let ?e = "healthy abc {}"
  let ?args = "deregister [''a'', ''b'', ''a'']"
  have p: "requested_plan abc [''MODEL_A''] (model_ids ?args) =
             [(''MODEL_A'', Some ''a''), (''MODEL_A'', Some ''a'')]"
    by (simp add: requested_plan_def deregister_def get_model_by_id_def abc_def descriptor_def)
  have r: "fst (main_drop ?e ?args [''MODEL_A'']) = None"
    by (simp add: main_drop_def drop_body_def deregister_def get_model_by_id_def drop_model_def
          db_drop_def load_config_def get_db_connection_def get_loaded_models_def
          finally_close_def truthy_def start_def emit_def print_def healthy_def abc_def
          descriptor_def Let_def)
  have "effects (snd (main_drop ?e ?args [''MODEL_A''])) =
           [CONNECT, SELECT_MODEL_NAME] @
           map (\<lambda>(n, i). DROP_ONNX_MODEL n) (requested_plan abc [''MODEL_A''] (model_ids ?args)) @
           [CLOSE] \<and>
         last (stdout (snd (main_drop ?e ?args [''MODEL_A'']))) =
           Msg_done_drop (length (requested_plan abc [''MODEL_A''] (model_ids ?args)))"
    by (rule requested_ids_are_not_deduplicated [where c = abc])
       (simp_all add: r p, simp_all add: healthy_def deregister_def abc_def descriptor_def)
  then show ?thesis by (simp add: p)
qed

section \<open>The plan of \<^verbatim>\<open>--all\<close>\<close>

lemma get_model_by_db_name_None:
  "get_model_by_db_name c n = None \<longleftrightarrow> n \<notin> m_db_model_name ` set c"
  by (auto simp: get_model_by_db_name_def find_None_iff)

lemma get_model_by_db_name_Some:
  "get_model_by_db_name c n = Some m \<Longrightarrow> m \<in> set c \<and> m_db_model_name m = n"
  by (auto simp: get_model_by_db_name_def find_Some_iff)

lemma drop_loop_prefix:
  "\<exists>k\<le>length P.
     effects (state_of (drop_loop e c P d s)) =
       effects s @ map (\<lambda>(n, i). DROP_ONNX_MODEL n) (take k P) \<and>
     (\<forall>d1 s1. drop_loop e c P d s = Ok d1 s1 \<longrightarrow> k = length P)"
proof (induction P arbitrary: d s)
  case Nil
  then show ?case by simp
next
  case (Cons p P)
  obtain n i where p: "p = (n, i)" by (cases p)
  define h where "h = (if truthy i
            then (case get_model_by_id c (the i) of
                    None \<Rightarrow> Raise TypeError s
                  | Some m \<Rightarrow> Ok () (print [Header (the i) (m_name m)] s))
            else Ok () (print [Header_unknown n] s))"
  have step: "drop_loop e c (p # P) d s =
      (case h of
        Raise x s1 \<Rightarrow> Raise x s1
      | Ok _ s1 \<Rightarrow>
          (case drop_model e n s1 of
             Raise x s2 \<Rightarrow> Raise x s2
           | Ok _ s2 \<Rightarrow> drop_loop e c P (d + 1) s2))"
    by (simp add: p h_def)
  have hs: "effects (state_of h) = effects s"
    by (simp add: h_def split: option.splits)
  show ?case
  proof (cases h)
    case (Raise x s1)
    with hs step show ?thesis by (intro exI [of _ 0]) simp
  next
    case (Ok u s1)
    with hs have e1: "effects s1 = effects s" by simp
    show ?thesis
    proof (cases "drop_model e n s1")
      case r: (Raise x s2)
      from drop_model_effects [of e n s1] r e1
      have "effects s2 = effects s @ [DROP_ONNX_MODEL n]" by simp
      with step Ok r p show ?thesis by (intro exI [of _ 1]) simp
    next
      case o: (Ok v s2)
      from drop_model_Ok_effects [OF o] e1
      have e2: "effects s2 = effects s @ [DROP_ONNX_MODEL n]" by simp
      from Cons.IH [of "d + 1" s2] obtain k where k: "k \<le> length P"
        "effects (state_of (drop_loop e c P (d + 1) s2)) =
           effects s2 @ map (\<lambda>(n, i). DROP_ONNX_MODEL n) (take k P)"
        "\<forall>d1 s1. drop_loop e c P (d + 1) s2 = Ok d1 s1 \<longrightarrow> k = length P"
        by blast
      with step Ok o p e2 show ?thesis by (intro exI [of _ "Suc k"]) simp
    qed
  qed
qed

lemma drop_model_stdout_any:
  "\<exists>ls. stdout (state_of (drop_model e n s)) = stdout s @ ls"
  by (simp add: drop_model_def Let_def split: sum.splits)

lemma drop_loop_stdout_any:
  "\<exists>ls. stdout (state_of (drop_loop e c P d s)) = stdout s @ ls"
proof (induction P arbitrary: d s)
  case Nil
  then show ?case by simp
next
  case (Cons p P)
  obtain n i where p: "p = (n, i)" by (cases p)
  have step: "\<exists>ls. stdout (state_of (drop_loop e c P (d + 1) (state_of (drop_model e n s1)))) =
                stdout s1 @ ls" for s1
    using Cons.IH [of "d + 1" "state_of (drop_model e n s1)"] drop_model_stdout_any [of e n s1]
    by auto
  have tail: "\<exists>ls. stdout (state_of (case drop_model e n s1 of
                 Raise x s2 \<Rightarrow> Raise x s2
               | Ok _ s2 \<Rightarrow> drop_loop e c P (d + 1) s2)) = stdout s1 @ ls" for s1
    using step [of s1] drop_model_stdout_any [of e n s1]
    by (cases "drop_model e n s1") auto
  show ?case
    using tail [of "print [Header_unknown n] s"]
      tail [of "print [Header (the i) (m_name (the (get_model_by_id c (the i))))] s"]
    by (auto simp: p split: option.splits)
qed

text \<open>
  C8: in a deregister run with \<^verbatim>\<open>--all\<close> (no ids, no \<^verbatim>\<open>--list\<close>) against a
  registry that is not empty, with the manifest loaded and the snapshot read, the plan
  \<open>P\<close> names exactly the names in the registry, each once, known and orphan alike; an
  entry whose name no descriptor has carries no id, and an entry whose name some
  descriptor has carries the id of the descriptor that the lookup by registry name finds.
  The run works on this plan: without \<^verbatim>\<open>--yes\<close> its output starts with the size of
  the plan and one line for each entry, in plan order; when the run is confirmed the
  drops it issues are those of the plan, in plan order, up to the first that raises, and
  all of them with a summary of the plan's length when the run returns normally; when
  the prompt is declined nothing is dropped.
\<close>

theorem drop_all_plans_every_registered_name:
  assumes env: "manifest e = Document c" "password_set e" "connect_ok e" "select_ok e"
    and mode: "all_flag args" "\<not> list_only args" "model_ids args = []"
    and some: "rows \<noteq> []"
    and plan: "P = plan_all c (remdups rows)"
  shows "set (map fst P) = set rows \<and> distinct (map fst P) \<and>
         (\<forall>(n, i) \<in> set P.
            (n \<notin> m_db_model_name ` set c \<longrightarrow> i = None) \<and>
            (n \<in> m_db_model_name ` set c \<longrightarrow>
               (\<exists>m \<in> set c. m_db_model_name m = n \<and> get_model_by_db_name c n = Some m \<and>
                  i = Some (m_id m)))) \<and>
         (\<not> yes_flag args \<longrightarrow>
            (\<exists>post. stdout (snd (main_drop e args rows)) =
               Plan_size (length P) #
               map (\<lambda>(n, i). if truthy i then Plan_known n (the i) else Plan_orphan n) P @ post)) \<and>
         (yes_flag args \<or> answer e = Reply_y \<longrightarrow>
            (\<exists>k\<le>length P.
               effects (snd (main_drop e args rows)) =
                 [CONNECT, SELECT_MODEL_NAME] @
                 map (\<lambda>(n, i). DROP_ONNX_MODEL n) (take k P) @ [CLOSE] \<and>
               (fst (main_drop e args rows) = None \<longrightarrow>
                  k = length P \<and>
                  last (stdout (snd (main_drop e args rows))) = Msg_done_drop (length P)))) \<and>
         (\<not> yes_flag args \<and> answer e \<noteq> Reply_y \<longrightarrow>
            fst (main_drop e args rows) = None \<and>
            effects (snd (main_drop e args rows)) = [CONNECT, SELECT_MODEL_NAME, CLOSE] \<and>
            mining_models (snd (main_drop e args rows)) = rows)"
proof -
  let ?s1 = "emit SELECT_MODEL_NAME (emit CONNECT (start rows))"
  let ?lines = "Plan_size (length P) #
                map (\<lambda>(n, i). if truthy i then Plan_known n (the i) else Plan_orphan n) P"
  have names: "map fst P = remdups rows"
    by (simp add: plan plan_all_def comp_def)
  from some names have ne: "P \<noteq> []" by auto
  have items: "(n \<notin> m_db_model_name ` set c \<longrightarrow> i = None) \<and>
        (n \<in> m_db_model_name ` set c \<longrightarrow>
           (\<exists>m \<in> set c. m_db_model_name m = n \<and> get_model_by_db_name c n = Some m \<and>
              i = Some (m_id m)))"
    if "(n, i) \<in> set P" for n i
  proof (cases "get_model_by_db_name c n")
    case None
    with that get_model_by_db_name_None [of c n] show ?thesis
      by (auto simp: plan plan_all_def)
  next
    case (Some m)
    with that get_model_by_db_name_Some [OF Some] show ?thesis
      by (auto simp: plan plan_all_def)
  qed
  define r where "r = (if yes_flag args then (True, ?s1) else confirm_deletion e P ?s1)"
  have body: "drop_body e args c (emit CONNECT (start rows)) =
      (if \<not> fst r then Ok () (print [Msg_cancelled] (snd r))
       else (case drop_loop e c P 0 (snd r) of
               Raise x s4 \<Rightarrow> Raise x s4
             | Ok dropped_count s4 \<Rightarrow> Ok () (print [Msg_done_drop dropped_count] s4)))"
    using env mode ne
    by (simp add: drop_body_def get_loaded_models_def Let_def r_def plan)
  have m: "main_drop e args rows = finally_close (drop_body e args c (emit CONNECT (start rows)))"
    using env mode by (simp add: main_drop_def load_config_def get_db_connection_def)
  have display: "\<exists>post. stdout (snd (main_drop e args rows)) = ?lines @ post"
    if "\<not> yes_flag args"
  proof -
    have r1: "\<exists>ls. stdout (snd r) = ?lines @ ls" "effects (snd r) = [CONNECT, SELECT_MODEL_NAME]"
      using that by (auto simp: r_def confirm_deletion_def Let_def split: reply.splits)
    show ?thesis
    proof (cases "fst r")
      case False
      with r1 show ?thesis by (auto simp: m body finally_close_def)
    next
      case True
      from drop_loop_stdout_any [of e c P 0 "snd r"] r1
      obtain ls where "stdout (state_of (drop_loop e c P 0 (snd r))) = ?lines @ ls" by auto
      with True show ?thesis
        by (cases "drop_loop e c P 0 (snd r)") (auto simp: m body finally_close_def)
    qed
  qed
  have execute: "\<exists>k\<le>length P.
               effects (snd (main_drop e args rows)) =
                 [CONNECT, SELECT_MODEL_NAME] @
                 map (\<lambda>(n, i). DROP_ONNX_MODEL n) (take k P) @ [CLOSE] \<and>
               (fst (main_drop e args rows) = None \<longrightarrow>
                  k = length P \<and>
                  last (stdout (snd (main_drop e args rows))) = Msg_done_drop (length P))"
    if "yes_flag args \<or> answer e = Reply_y"
  proof -
    have r1: "fst r" "effects (snd r) = [CONNECT, SELECT_MODEL_NAME]"
      using that by (auto simp: r_def confirm_deletion_def Let_def)
    from drop_loop_prefix [of P e c 0 "snd r"] obtain k where k: "k \<le> length P"
      "effects (state_of (drop_loop e c P 0 (snd r))) =
         effects (snd r) @ map (\<lambda>(n, i). DROP_ONNX_MODEL n) (take k P)"
      "\<forall>d1 s1. drop_loop e c P 0 (snd r) = Ok d1 s1 \<longrightarrow> k = length P"
      by blast
    show ?thesis
    proof (cases "drop_loop e c P 0 (snd r)")
      case (Ok d1 s1)
      from drop_loop_counts [OF Ok] k Ok r1 show ?thesis
        by (intro exI [of _ k]) (simp add: m body finally_close_def)
    next
      case (Raise x s1)
      with k r1 show ?thesis
        by (intro exI [of _ k]) (simp add: m body finally_close_def)
    qed
  qed
  have declined: "fst (main_drop e args rows) = None \<and>
            effects (snd (main_drop e args rows)) = [CONNECT, SELECT_MODEL_NAME, CLOSE] \<and>
            mining_models (snd (main_drop e args rows)) = rows"
    if "\<not> yes_flag args \<and> answer e \<noteq> Reply_y"
  proof -
    have "\<not> fst r" "effects (snd r) = [CONNECT, SELECT_MODEL_NAME]" "mining_models (snd r) = rows"
      using that by (auto simp: r_def confirm_deletion_def Let_def split: reply.splits)
    then show ?thesis by (simp add: m body finally_close_def)
  qed
  from names items display execute declined show ?thesis by auto
qed

theorem drop_all_plans_every_registered_name_witness:
  "plan_all abc [''MODEL_A'', ''ORPHAN''] = [(''MODEL_A'', Some ''a''), (''ORPHAN'', None)] \<and>
   take 3 (stdout (snd (main_drop (healthy abc {}) deregister_all [''MODEL_A'', ''ORPHAN'']))) =
     [Plan_size 2, Plan_known ''MODEL_A'' ''a'', Plan_orphan ''ORPHAN''] \<and>
   effects (snd (main_drop (healthy abc {}) deregister_all [''MODEL_A'', ''ORPHAN''])) =
     [CONNECT, SELECT_MODEL_NAME, DROP_ONNX_MODEL ''MODEL_A'', DROP_ONNX_MODEL ''ORPHAN'', CLOSE]"
proof -
  let ?e = "healthy abc {}"
  let ?rows = "[''MODEL_A'', ''ORPHAN'']"
  let ?P = "plan_all abc (remdups ?rows)"
  let ?run = "main_drop ?e deregister_all ?rows"
  have env: "manifest ?e = Document abc" "password_set ?e" "connect_ok ?e" "select_ok ?e"
    by (simp_all add: healthy_def)
  have mode: "all_flag deregister_all" "\<not> list_only deregister_all"
    "model_ids deregister_all = []"
    by (simp_all add: deregister_all_def)
  have P: "?P = [(''MODEL_A'', Some ''a''), (''ORPHAN'', None)]"
    and P': "plan_all abc ?rows = [(''MODEL_A'', Some ''a''), (''ORPHAN'', None)]"
    by (simp_all add: plan_all_def get_model_by_db_name_def abc_def descriptor_def)
  have returns: "fst ?run = None"
    by (simp add: main_drop_def drop_body_def deregister_all_def plan_all_def
          get_model_by_db_name_def get_model_by_id_def confirm_deletion_def drop_model_def
          db_drop_def load_config_def get_db_connection_def get_loaded_models_def
          finally_close_def truthy_def start_def emit_def print_def healthy_def abc_def
          descriptor_def Let_def)
  note t = drop_all_plans_every_registered_name [OF env mode _ refl, of ?rows]
  from t have "\<exists>post. stdout (snd ?run) =
      Plan_size (length ?P) #
      map (\<lambda>(n, i). if truthy i then Plan_known n (the i) else Plan_orphan n) ?P @ post"
    by (simp add: deregister_all_def)
  then have shown: "take 3 (stdout (snd ?run)) =
      [Plan_size 2, Plan_known ''MODEL_A'' ''a'', Plan_orphan ''ORPHAN'']"
    by (auto simp: P P' truthy_def)
  from t have "\<exists>k\<le>length ?P.
      effects (snd ?run) =
        [CONNECT, SELECT_MODEL_NAME] @ map (\<lambda>(n, i). DROP_ONNX_MODEL n) (take k ?P) @ [CLOSE] \<and>
      (fst ?run = None \<longrightarrow> k = length ?P \<and>
         last (stdout (snd ?run)) = Msg_done_drop (length ?P))"
    by (simp add: healthy_def)
  with returns have "effects (snd ?run) =
      [CONNECT, SELECT_MODEL_NAME] @ map (\<lambda>(n, i). DROP_ONNX_MODEL n) ?P @ [CLOSE]"
    by auto
  with shown P P' show ?thesis by simp
qed

section \<open>What a failed download leaves behind\<close>

lemma fs_simps [simp]:
  "files (fs_emit x s) = files s"
  "files (fs_print l s) = files s"
  by (simp_all add: fs_emit_def fs_print_def)

lemma endswith_last: "endswith s suf \<Longrightarrow> suf \<noteq> [] \<Longrightarrow> last s = last suf"
proof -
  assume a: "endswith s suf" and ne: "suf \<noteq> []"
  then have "s = take (length s - length suf) s @ suf"
    by (simp add: endswith_def) (metis append_take_drop_id)
  then have "last s = last (take (length s - length suf) s @ suf)" by simp
  with ne show ?thesis by simp
qed

lemma onnx_is_not_temp_zip: "endswith f ''.onnx'' \<Longrightarrow> f \<noteq> i @ ''_temp.zip''"
  using endswith_last [of f "''.onnx''"] by auto

lemma extract_onnx_keeps:
  assumes "\<not> endswith z ''.onnx''"
  shows "extract_onnx unwritable entries s = Done u s1 \<Longrightarrow> files s1 z = files s z"
    and "extract_onnx unwritable entries s = Fail x s1 \<Longrightarrow> files s1 z = files s z"
  using assms
  by (induction unwritable entries s rule: extract_onnx.induct)
     (auto simp: Let_def split: if_splits)

lemma temp_zip_not_onnx: "\<not> endswith (i @ ''_temp.zip'') ''.onnx''"
  using onnx_is_not_temp_zip [of "i @ ''_temp.zip''" i] by blast

lemma urlretrieve_Done:
  "urlretrieve server unwritable url f s = Done u s1 \<Longrightarrow> files s1 f \<noteq> None"
  by (auto simp: urlretrieve_def Let_def split: transfer.splits if_splits)

lemma urlretrieve_Fail:
  "urlretrieve server unwritable url f s = Fail x s1 \<Longrightarrow>
     (server url = Refused \<longrightarrow> files s1 = files s) \<and>
     (server url \<noteq> Refused \<and> f \<notin> unwritable \<longrightarrow>
        server url = Cut_off \<and> x = ContentTooShortError \<and> files s1 f = Some Truncated)"
  by (auto simp: urlretrieve_def Let_def split: transfer.splits if_splits)

text \<open>
  C7, as the specification states it: whatever fails, no partial file is left at the
  final artifact path, and the temporary archive is deleted on the failure path as on the
  success path. \<^verbatim>\<open>download_model\<close> writes a direct artifact straight to its final
  path and deletes the archive only after a successful extraction, so the claim fails: a
  direct transfer that is cut off leaves the partial file at the final path, and an
  archive download whose file is not a zip archive leaves the temporary file in place.
\<close>

theorem failed_download_leaves_files:
  "raised (download_model cuts_off {} (descriptor ''a'' ''a.onnx'' ''MODEL_A'') empty_fs) =
     Some ContentTooShortError \<and>
   files (fs_of (download_model cuts_off {} (descriptor ''a'' ''a.onnx'' ''MODEL_A'') empty_fs))
     ''a.onnx'' = Some Truncated \<and>
   raised (download_model serves_payload {} zipped empty_fs) = Some BadZipFile \<and>
   files (fs_of (download_model serves_payload {} zipped empty_fs)) ''z_temp.zip'' =
     Some (Payload 7)"
  by (simp add: download_model_def urlretrieve_def endswith_def empty_fs_def descriptor_def
        zipped_def fs_emit_def fs_print_def fs_of_def raised_def cuts_off_def
        serves_payload_def Let_def)

text \<open>
  C7, amended: for an artifact that is not yet present, a fetch from an archive source
  that succeeds has deleted the temporary archive; a fetch from an archive source that
  fails after the server answered (with the temporary path writable) leaves the
  temporary archive in place; a direct source is written straight to the final path, so
  a transfer that is cut off fails and leaves the partial file there; and a request that
  the server refuses fails without writing any file.
\<close>

theorem download_model_leftovers:
  assumes absent: "files s (m_output m) = None"
  shows "(endswith (m_url m) ''.zip'' \<longrightarrow>
            (\<forall>s1. download_model server unwritable m s = Done () s1 \<longrightarrow>
                  files s1 (m_id m @ ''_temp.zip'') = None) \<and>
            (\<forall>x s1. download_model server unwritable m s = Fail x s1 \<and>
                    server (m_url m) \<noteq> Refused \<and> m_id m @ ''_temp.zip'' \<notin> unwritable \<longrightarrow>
                  files s1 (m_id m @ ''_temp.zip'') \<noteq> None)) \<and>
         (\<not> endswith (m_url m) ''.zip'' \<and> server (m_url m) = Cut_off \<and>
            m_output m \<notin> unwritable \<longrightarrow>
            (\<exists>s1. download_model server unwritable m s = Fail ContentTooShortError s1 \<and>
                  files s1 (m_output m) = Some Truncated)) \<and>
         (server (m_url m) = Refused \<longrightarrow>
            (\<exists>s1. download_model server unwritable m s = Fail URLError s1 \<and> files s1 = files s))"
proof (intro conjI impI allI)
  fix s1
  assume z: "endswith (m_url m) ''.zip''"
    and d: "download_model server unwritable m s = Done () s1"
  from d z absent show "files s1 (m_id m @ ''_temp.zip'') = None"
    by (auto simp: download_model_def unlink_def Let_def
             split: fres.splits option.splits content.splits if_splits)
next
  fix x s1
  let ?z = "m_id m @ ''_temp.zip''"
  let ?s0 = "fs_print (Msg_downloading (m_name m)) s"
  assume z: "endswith (m_url m) ''.zip''"
    and f: "download_model server unwritable m s = Fail x s1 \<and>
            server (m_url m) \<noteq> Refused \<and> ?z \<notin> unwritable"
  show "files s1 ?z \<noteq> None"
  proof (cases "urlretrieve server unwritable (m_url m) ?z ?s0")
    case (Fail y s2)
    with f z absent have "s1 = s2" by (simp add: download_model_def Let_def)
    with urlretrieve_Fail [OF Fail] f show ?thesis by auto
  next
    case (Done u s2)
    note present = urlretrieve_Done [OF Done]
    show ?thesis
    proof (cases "\<exists>entries. files s2 ?z = Some (Archive entries)")
      case False
      with f z absent Done have "s1 = fs_print Msg_extracting s2"
        by (auto simp: download_model_def Let_def split: option.splits content.splits)
      with present show ?thesis by simp
    next
      case True
      then obtain entries where a: "files s2 ?z = Some (Archive entries)" by blast
      show ?thesis
      proof (cases "extract_onnx unwritable entries (fs_print Msg_extracting s2)")
        case (Fail y s3)
        with f z absent Done a have "s1 = s3" by (simp add: download_model_def Let_def)
        with extract_onnx_keeps(2) [OF temp_zip_not_onnx Fail] present show ?thesis by simp
      next
        case d3: (Done v s3)
        from extract_onnx_keeps(1) [OF temp_zip_not_onnx d3] present
        have "files s3 ?z \<noteq> None" by simp
        then have "\<exists>s4. unlink ?z s3 = Done () s4" by (simp add: unlink_def Let_def)
        with f z absent Done a d3 show ?thesis
          by (auto simp: download_model_def Let_def)
      qed
    qed
  qed
next
  assume "\<not> endswith (m_url m) ''.zip'' \<and> server (m_url m) = Cut_off \<and> m_output m \<notin> unwritable"
  with absent show "\<exists>s1. download_model server unwritable m s = Fail ContentTooShortError s1 \<and>
                  files s1 (m_output m) = Some Truncated"
    by (simp add: download_model_def urlretrieve_def Let_def)
next
  assume "server (m_url m) = Refused"
  with absent show "\<exists>s1. download_model server unwritable m s = Fail URLError s1 \<and> files s1 = files s"
    by (simp add: download_model_def urlretrieve_def Let_def)
qed

theorem download_model_leftovers_witness:
  "files (fs_of (download_model serves_archive {} zipped empty_fs)) ''z_temp.zip'' = None \<and>
   files (fs_of (download_model cuts_off {} zipped empty_fs)) ''z_temp.zip'' \<noteq> None \<and>
   files (fs_of (download_model cuts_off {} (descriptor ''a'' ''a.onnx'' ''MODEL_A'') empty_fs))
     ''a.onnx'' = Some Truncated"
proof -
  let ?a = "descriptor ''a'' ''a.onnx'' ''MODEL_A''"
  have absent: "files empty_fs (m_output zipped) = None" "files empty_fs (m_output ?a) = None"
    by (simp_all add: empty_fs_def)
  have z: "endswith (m_url zipped) ''.zip''" "m_id zipped @ ''_temp.zip'' = ''z_temp.zip''"
    and a: "\<not> endswith (m_url ?a) ''.zip''" "m_output ?a = ''a.onnx''"
    by (simp_all add: zipped_def descriptor_def endswith_def)
  have srv: "cuts_off (m_url zipped) \<noteq> Refused" "cuts_off (m_url ?a) = Cut_off"
    by (simp_all add: cuts_off_def)
  have "\<exists>s1. download_model serves_archive {} zipped empty_fs = Done () s1"
    by (simp add: download_model_def urlretrieve_def endswith_def empty_fs_def descriptor_def
          zipped_def fs_emit_def fs_print_def unlink_def serves_archive_def Let_def)
  then obtain s1 where d1: "download_model serves_archive {} zipped empty_fs = Done () s1"
    by blast
  have "\<exists>x s2. download_model cuts_off {} zipped empty_fs = Fail x s2"
    by (simp add: download_model_def urlretrieve_def endswith_def empty_fs_def descriptor_def
          zipped_def fs_emit_def fs_print_def cuts_off_def Let_def)
  then obtain x s2 where d2: "download_model cuts_off {} zipped empty_fs = Fail x s2" by blast
  from download_model_leftovers [OF absent(1), of serves_archive "{}"] z d1
  have "files s1 ''z_temp.zip'' = None" by simp
  moreover from download_model_leftovers [OF absent(1), of cuts_off "{}"] z d2 srv(1)
  have "files s2 ''z_temp.zip'' \<noteq> None" by simp
  moreover from download_model_leftovers [OF absent(2), of cuts_off "{}"] a srv(2)
  obtain s3 where "download_model cuts_off {} ?a empty_fs = Fail ContentTooShortError s3"
    "files s3 ''a.onnx'' = Some Truncated" by auto
  ultimately show ?thesis using d1 d2 by (simp add: fs_of_def)
qed

section \<open>The register loop\<close>


lemma load_step_cases:
  assumes "load_step e force L m cnt s = r"
  obtains
    (skip_loaded) "m_db_model_name m \<in> set L" "\<not> force"
      "r = Ok (fst cnt, snd cnt + 1) (print [Header (m_id m) (m_name m), Skip_already_loaded] s)"
  | (drop_raises) x where "m_db_model_name m \<in> set L" "force"
      "r = Raise x (emit (DROP_ONNX_MODEL (m_db_model_name m)) (print [Header (m_id m) (m_name m)] s))"
  | (drop_skip) "m_db_model_name m \<in> set L" "force" "m_output m \<notin> onnx_files e"
      "r = Ok (fst cnt, snd cnt + 1)
            \<lparr>mining_models = removeAll (m_db_model_name m) (mining_models s),
             effects = effects s @ [DROP_ONNX_MODEL (m_db_model_name m)],
             stdout = stdout s @ [Header (m_id m) (m_name m), Msg_drop (m_db_model_name m),
                                  Skip_no_file (m_output m), Hint_download (m_id m)]\<rparr>"
  | (drop_load_raises) x where "m_db_model_name m \<in> set L" "force" "m_output m \<in> onnx_files e"
      "r = Raise x
            \<lparr>mining_models = removeAll (m_db_model_name m) (mining_models s),
             effects = effects s @ [DROP_ONNX_MODEL (m_db_model_name m),
                                    LOAD_ONNX_MODEL (m_output m) (m_db_model_name m)],
             stdout = stdout s @ [Header (m_id m) (m_name m), Msg_drop (m_db_model_name m)]\<rparr>"
  | (drop_load) "m_db_model_name m \<in> set L" "force" "m_output m \<in> onnx_files e"
      "r = Ok (fst cnt + 1, snd cnt)
            \<lparr>mining_models = removeAll (m_db_model_name m) (mining_models s) @ [m_db_model_name m],
             effects = effects s @ [DROP_ONNX_MODEL (m_db_model_name m),
                                    LOAD_ONNX_MODEL (m_output m) (m_db_model_name m)],
             stdout = stdout s @ [Header (m_id m) (m_name m), Msg_drop (m_db_model_name m),
                                  Msg_load (m_db_model_name m)]\<rparr>"
  | (skip_file) "m_db_model_name m \<notin> set L" "m_output m \<notin> onnx_files e"
      "r = Ok (fst cnt, snd cnt + 1)
            (print [Header (m_id m) (m_name m), Skip_no_file (m_output m), Hint_download (m_id m)] s)"
  | (load_raises) x where "m_db_model_name m \<notin> set L" "m_output m \<in> onnx_files e"
      "r = Raise x (emit (LOAD_ONNX_MODEL (m_output m) (m_db_model_name m))
                      (print [Header (m_id m) (m_name m)] s))"
  | (load) "m_db_model_name m \<notin> set L" "m_output m \<in> onnx_files e"
      "m_db_model_name m \<notin> set (mining_models s)"
      "r = Ok (fst cnt + 1, snd cnt)
            \<lparr>mining_models = mining_models s @ [m_db_model_name m],
             effects = effects s @ [LOAD_ONNX_MODEL (m_output m) (m_db_model_name m)],
             stdout = stdout s @ [Header (m_id m) (m_name m), Msg_load (m_db_model_name m)]\<rparr>"
  using assms
  by (auto simp: load_step_def load_model_def drop_model_def db_load_def db_drop_def Let_def
        emit_def print_def
      split: if_splits)

lemma load_step_calls:
  "\<forall>x\<in>set (effects s). register_call e x \<Longrightarrow>
   \<forall>x\<in>set (effects (state_of (load_step e force L m cnt s))). register_call e x"
  by (rule load_step_cases
        [where e = e and force = force and L = L and m = m and cnt = cnt and s = s, OF refl])
     (auto simp: register_call_def)

lemma load_loop_calls:
  "\<forall>x\<in>set (effects s). register_call e x \<Longrightarrow>
   \<forall>x\<in>set (effects (state_of (load_loop e force L ms cnt s))). register_call e x"
proof (induction ms arbitrary: cnt s)
  case Nil
  then show ?case by simp
next
  case (Cons m ms)
  from load_step_calls [OF Cons.prems, where force = force and L = L and m = m and cnt = cnt]
    Cons.IH
  show ?case by (cases "load_step e force L m cnt s") auto
qed

lemma main_load_calls:
  "\<forall>x\<in>set (effects (snd (main_load e args rows))). register_call e x"
proof -
  have s0: "\<forall>x\<in>set (effects (print ls (emit SELECT_MODEL_NAME (emit CONNECT (start rows))))).
              register_call e x" for ls
    by (simp add: register_call_def)
  have body: "\<forall>x\<in>set (effects (state_of (load_body e args c (emit CONNECT (start rows))))).
          register_call e x" for c
    using load_loop_calls [OF s0 [of "[Msg_start (length (models_to_load args c))]"],
        where force = "force_flag args" and L = "remdups rows"
        and ms = "models_to_load args c" and cnt = "(0, 0)"]
    by (auto simp: load_body_def get_loaded_models_def list_models_def register_call_def
          split: res.splits)
  show ?thesis
  proof (cases "manifest e")
    case (Document c)
    with body [of c] show ?thesis
      by (auto simp: main_load_def load_config_def get_db_connection_def finally_close_def
            register_call_def split: res.splits)
  qed (simp_all add: main_load_def load_config_def)
qed







section \<open>Force mode on a registered target\<close>







section \<open>A target whose artifact file is absent\<close>

lemma load_step_stdout_any:
  "\<exists>ls. stdout (state_of (load_step e force L m cnt s)) = stdout s @ ls"
  by (rule load_step_cases
        [where e = e and force = force and L = L and m = m and cnt = cnt and s = s, OF refl])
     auto

lemma load_loop_stdout_any:
  "\<exists>ls. stdout (state_of (load_loop e force L ms cnt s)) = stdout s @ ls"
proof (induction ms arbitrary: cnt s)
  case Nil
  then show ?case by simp
next
  case (Cons m ms)
  show ?case
  proof (cases "load_step e force L m cnt s")
    case (Ok cnt1 s1)
    from load_step_stdout_any [of e force L m cnt s] Ok
    obtain ls where "stdout s1 = stdout s @ ls" by auto
    with Cons.IH [of cnt1 s1] Ok show ?thesis by auto
  next
    case (Raise x s1)
    with load_step_stdout_any [of e force L m cnt s] show ?thesis by auto
  qed
qed

text \<open>
  C4, as the specification states it: for every descriptor of a register batch whose
  registry name is not registered and whose local artifact file is absent, the operation
  emits the skip for the missing artifact and the advice to fetch. The register loop
  ends at the first registry call that raises, so the claim fails for a descriptor
  behind a failing one: with a backend that rejects the load of the first descriptor, the
  second and third descriptor, unregistered and without a file, get no line at all.
\<close>

theorem missing_artifact_behind_a_failure_is_not_reported:
  "main_load ((healthy abc {''a.onnx''})\<lparr>load_faults := {''MODEL_A''}\<rparr>) register_all [] =
     (Some DatabaseError,
      \<lparr>mining_models = [],
       effects = [CONNECT, SELECT_MODEL_NAME, LOAD_ONNX_MODEL ''a.onnx'' ''MODEL_A'', CLOSE],
       stdout = [Msg_start 3, Header ''a'' ''a'']\<rparr>)"
  by (simp add: run_defs)

text \<open>
  C4, amended: in every register run without \<^verbatim>\<open>--list\<close> that reaches the
  descriptor (the manifest is loaded, the snapshot is read and no registry call raises
  for the descriptors before it), a descriptor of the batch whose registry name is not registered and whose local
  artifact file is absent gets the header, the skip for the missing file and the advice
  to download, in that order, right after the output of the descriptors before it; the
  loop body for such a descriptor counts one skip and changes nothing else, in either
  mode. No run of the register script issues a call of the download script, and no run
  issues a load for a file that is absent, so such a descriptor is never registered.
\<close>

theorem missing_artifact_is_skipped_never_fetched:
  "(manifest e = Document c \<and> password_set e \<and> connect_ok e \<and> select_ok e \<and>
    \<not> list_flag args \<and> models_to_load args c = before @ m # rest \<and>
    load_loop e (force_flag args) (remdups rows) before (0, 0)
      (print [Msg_start (length (models_to_load args c))]
         (emit SELECT_MODEL_NAME (emit CONNECT (start rows)))) = Ok cnt1 s1 \<and>
    m_db_model_name m \<notin> set rows \<and> m_output m \<notin> onnx_files e \<longrightarrow>
      (\<exists>post. stdout (snd (main_load e args rows)) =
         stdout s1 @ [Header (m_id m) (m_name m), Skip_no_file (m_output m),
                      Hint_download (m_id m)] @ post)) \<and>
   (m_db_model_name m \<notin> set loaded_models \<and> m_output m \<notin> onnx_files e \<longrightarrow>
      load_step e force loaded_models m cnt s =
        Ok (fst cnt, snd cnt + 1)
           (print [Header (m_id m) (m_name m), Skip_no_file (m_output m), Hint_download (m_id m)] s)) \<and>
   (\<forall>x\<in>set (effects (snd (main_load e args rows))). \<not> fetch_call x) \<and>
   (m_output m \<notin> onnx_files e \<longrightarrow>
      LOAD_ONNX_MODEL (m_output m) n \<notin> set (effects (snd (main_load e args rows))))"
proof (intro conjI)
  show "manifest e = Document c \<and> password_set e \<and> connect_ok e \<and> select_ok e \<and>
    \<not> list_flag args \<and> models_to_load args c = before @ m # rest \<and>
    load_loop e (force_flag args) (remdups rows) before (0, 0)
      (print [Msg_start (length (models_to_load args c))]
         (emit SELECT_MODEL_NAME (emit CONNECT (start rows)))) = Ok cnt1 s1 \<and>
    m_db_model_name m \<notin> set rows \<and> m_output m \<notin> onnx_files e \<longrightarrow>
      (\<exists>post. stdout (snd (main_load e args rows)) =
         stdout s1 @ [Header (m_id m) (m_name m), Skip_no_file (m_output m),
                      Hint_download (m_id m)] @ post)"
  proof
    assume a: "manifest e = Document c \<and> password_set e \<and> connect_ok e \<and> select_ok e \<and>
      \<not> list_flag args \<and> models_to_load args c = before @ m # rest \<and>
      load_loop e (force_flag args) (remdups rows) before (0, 0)
        (print [Msg_start (length (models_to_load args c))]
           (emit SELECT_MODEL_NAME (emit CONNECT (start rows)))) = Ok cnt1 s1 \<and>
      m_db_model_name m \<notin> set rows \<and> m_output m \<notin> onnx_files e"
    define s0 where "s0 = print [Msg_start (length (models_to_load args c))]
                            (emit SELECT_MODEL_NAME (emit CONNECT (start rows)))"
    define s2 where "s2 = print [Header (m_id m) (m_name m), Skip_no_file (m_output m),
                                 Hint_download (m_id m)] s1"
    define r where "r = load_loop e (force_flag args) (remdups rows) rest
                          (fst cnt1, snd cnt1 + 1) s2"
    from a have batch: "models_to_load args c = before @ m # rest" by blast
    from a have reach: "load_loop e (force_flag args) (remdups rows) before (0, 0) s0 = Ok cnt1 s1"
      unfolding s0_def by blast
    from a have st: "load_step e (force_flag args) (remdups rows) m cnt1 s1 =
                       Ok (fst cnt1, snd cnt1 + 1) s2"
      by (simp add: load_step_def load_model_def print_def Let_def s2_def)
    have "load_loop e (force_flag args) (remdups rows) (before @ m # rest) (0, 0) s0 = r"
      using reach st by (simp add: load_loop_append r_def)
    then have loop: "load_loop e (force_flag args) (remdups rows) (models_to_load args c) (0, 0) s0 = r"
      by (simp add: batch)
    from load_loop_stdout_any [of e "force_flag args" "remdups rows" rest "(fst cnt1, snd cnt1 + 1)" s2]
    obtain ls where ls: "stdout (state_of r) = stdout s2 @ ls" by (auto simp: r_def)
    have "\<exists>post. stdout (snd (main_load e args rows)) = stdout (state_of r) @ post"
      using a batch loop
      by (cases r)
         (simp_all add: main_load_def load_config_def get_db_connection_def load_body_def
            get_loaded_models_def finally_close_def s0_def)
    with ls show "\<exists>post. stdout (snd (main_load e args rows)) =
         stdout s1 @ [Header (m_id m) (m_name m), Skip_no_file (m_output m),
                      Hint_download (m_id m)] @ post"
      by (auto simp: s2_def)
  qed
next
  show "m_db_model_name m \<notin> set loaded_models \<and> m_output m \<notin> onnx_files e \<longrightarrow>
      load_step e force loaded_models m cnt s =
        Ok (fst cnt, snd cnt + 1)
           (print [Header (m_id m) (m_name m), Skip_no_file (m_output m), Hint_download (m_id m)] s)"
    by (auto simp: load_step_def load_model_def print_def Let_def)
next
  show "\<forall>x\<in>set (effects (snd (main_load e args rows))). \<not> fetch_call x"
    using main_load_calls [of e args rows] by (auto simp: register_call_def)
next
  show "m_output m \<notin> onnx_files e \<longrightarrow>
      LOAD_ONNX_MODEL (m_output m) n \<notin> set (effects (snd (main_load e args rows)))"
    using main_load_calls [of e args rows] by (auto simp: register_call_def)
qed

theorem missing_artifact_is_skipped_never_fetched_witness:
  "take 6 (stdout (snd (main_load (healthy abc {''a.onnx''}) register_all []))) =
     [Msg_start 3, Header ''a'' ''a'', Msg_load ''MODEL_A'',
      Header ''b'' ''b'', Skip_no_file ''b.onnx'', Hint_download ''b''] \<and>
   load_step (healthy abc {''a.onnx''}) False [] (descriptor ''b'' ''b.onnx'' ''MODEL_B'')
       (1, 0) (start []) =
     Ok (1, 1) (print [Header ''b'' ''b'', Skip_no_file ''b.onnx'', Hint_download ''b''] (start [])) \<and>
   LOAD_ONNX_MODEL ''b.onnx'' ''MODEL_B'' \<notin>
     set (effects (snd (main_load (healthy abc {''a.onnx''}) register_all [])))"
proof -
  let ?e = "healthy abc {''a.onnx''}"
  let ?b = "descriptor ''b'' ''b.onnx'' ''MODEL_B''"
  let ?s1 = "\<lparr>mining_models = [''MODEL_A''],
              effects = [CONNECT, SELECT_MODEL_NAME, LOAD_ONNX_MODEL ''a.onnx'' ''MODEL_A''],
              stdout = [Msg_start 3, Header ''a'' ''a'', Msg_load ''MODEL_A'']\<rparr>"
  note t = missing_artifact_is_skipped_never_fetched
      [where e = ?e and c = abc and args = register_all and rows = "[]"
         and before = "[descriptor ''a'' ''a.onnx'' ''MODEL_A'']" and m = ?b
         and rest = "[descriptor ''c'' ''c.onnx'' ''MODEL_C'']" and ?cnt1.0 = "(1, 0)"
         and ?s1.0 = ?s1 and loaded_models = "[]" and force = False and cnt = "(1, 0)"
         and s = "start []" and n = "''MODEL_B''"]
  have reach: "manifest ?e = Document abc \<and> password_set ?e \<and> connect_ok ?e \<and> select_ok ?e \<and>
    \<not> list_flag register_all \<and>
    models_to_load register_all abc =
      [descriptor ''a'' ''a.onnx'' ''MODEL_A''] @ ?b # [descriptor ''c'' ''c.onnx'' ''MODEL_C''] \<and>
    load_loop ?e (force_flag register_all) (remdups []) [descriptor ''a'' ''a.onnx'' ''MODEL_A'']
      (0, 0)
      (print [Msg_start (length (models_to_load register_all abc))]
         (emit SELECT_MODEL_NAME (emit CONNECT (start [])))) = Ok (1, 0) ?s1 \<and>
    m_db_model_name ?b \<notin> set [] \<and> m_output ?b \<notin> onnx_files ?e"
    by (simp add: run_defs)
  from t [THEN conjunct1, THEN mp, OF reach]
  have "\<exists>post. stdout (snd (main_load ?e register_all [])) =
          stdout ?s1 @ [Header (m_id ?b) (m_name ?b), Skip_no_file (m_output ?b),
                        Hint_download (m_id ?b)] @ post" .
  then have first: "take 6 (stdout (snd (main_load ?e register_all []))) =
     [Msg_start 3, Header ''a'' ''a'', Msg_load ''MODEL_A'',
      Header ''b'' ''b'', Skip_no_file ''b.onnx'', Hint_download ''b'']"
    by (auto simp: descriptor_def)
  from t [THEN conjunct2] have
    "load_step ?e False [] ?b (1, 0) (start []) =
       Ok (1, 1) (print [Header ''b'' ''b'', Skip_no_file ''b.onnx'', Hint_download ''b''] (start [])) \<and>
     LOAD_ONNX_MODEL ''b.onnx'' ''MODEL_B'' \<notin>
       set (effects (snd (main_load ?e register_all [])))"
    by (simp add: healthy_def descriptor_def)
  with first show ?thesis by blast
qed

section \<open>Registering without force\<close>






end
